theory Spec2Isabelle
  imports Main "HOL-Library.Sublist"
begin

section \<open>etcdmate: membership reconciliation of an etcd node against its autoscaling group\<close>

text \<open>
  The development embeds the package \<^verbatim>\<open>etcdclient\<close> (the admin client: health probe,
  list, add and remove of members) and the reconciliation part of \<^verbatim>\<open>main.go\<close>
  (\<^verbatim>\<open>RemoveStaleMembers\<close>, \<^verbatim>\<open>GetMyself\<close>, \<^verbatim>\<open>MaybeAddMyself\<close>, \<^verbatim>\<open>WriteDropIn\<close>,
  \<^verbatim>\<open>main\<close>). Every effect of the program is an entry of a trace that the functions
  thread through; everything outside the repository (the HTTP transport, the JSON
  decoder, the file system, the AWS lookups) is a field of an environment, over which
  the theorems quantify.
\<close>

subsection \<open>Data model\<close>

text \<open>\<^verbatim>\<open>type Member struct { ID, Name, ClientURL, PeerURL string }\<close>\<close>

record Member =
  ID :: string
  Name :: string
  ClientURL :: string
  PeerURL :: string

text \<open>
  \<^verbatim>\<open>type jsonMember struct { Id, Name string; ClientURLs, PeerURLs []string }\<close>
  (the later revision of the client, with exported fields). The fields carry the
  prefix \<open>jm_\<close> because \<open>Id\<close> and \<open>Name\<close> are taken.
\<close>

record jsonMember =
  jm_Id :: string
  jm_Name :: string
  jm_ClientURLs :: "string list"
  jm_PeerURLs :: "string list"

subsection \<open>The outside world\<close>

text \<open>
  A request handed to \<^verbatim>\<open>net/http\<close>: \<^verbatim>\<open>Get(url)\<close>, \<^verbatim>\<open>Do\<close> of a \<^verbatim>\<open>DELETE\<close>
  request, \<^verbatim>\<open>Post(url, contentType, body)\<close>.
\<close>

datatype request =
    GET string
  | DELETE string
  | POST string string string

text \<open>
  What the HTTP client gives back: \<^verbatim>\<open>err != nil\<close> with the error's text, or a completed
  response with its status code and body. Go's client returns no error for a non-2xx
  status.
\<close>

datatype response =
    TransportError string
  | Response nat string

text \<open>
  The trace of a run. \<open>RemoveMemberCall hm rm\<close> and \<open>AddMemberCall hm am\<close> record
  the entry into \<^verbatim>\<open>Client.RemoveMember(hm, rm)\<close> and \<^verbatim>\<open>Client.AddMember(hm, am)\<close>
  (where the source logs "Removing member" and "Adding member"), \<open>Http r\<close> a request
  given to the HTTP client, \<open>FileWritten path content\<close> the \<^verbatim>\<open>Fprintf\<close> into the
  created drop-in file.
\<close>

datatype event =
    Http request
  | RemoveMemberCall Member Member
  | AddMemberCall Member Member
  | FileWritten string string

text \<open>
  The environment of a run. The answer of the transport may depend on everything that
  happened before (the trace so far), so that a cluster that changes its answers over
  time is covered. Go errors are strings; \<open>None\<close> is \<^verbatim>\<open>nil\<close>.
  \<^item> \<open>transport\<close>: the HTTP client's answer to a request;
  \<^item> \<open>newRequestErr\<close>: the error of \<^verbatim>\<open>http.NewRequest("DELETE", url, nil)\<close>;
  \<^item> \<open>decodeHealth\<close>: \<^verbatim>\<open>json.Decode\<close> of a body into a \<^verbatim>\<open>map[string]string\<close>
    (whatever the map holds after a decoding error, which the source ignores);
  \<^item> \<open>decodeMembers\<close>: the same into a \<^verbatim>\<open>map[string][]jsonMember\<close>;
  \<^item> \<open>GetMetadata\<close>: the instance identity document's \<^verbatim>\<open>InstanceID\<close>, or the error;
  \<^item> \<open>GetExpectedMembers\<close>: the roster derived from the autoscaling group, or the error;
  \<^item> \<open>NewClient\<close>: the error of \<^verbatim>\<open>etcdclient.NewClient\<close>;
  \<^item> \<open>dropInFile\<close>: the flag \<^verbatim>\<open>--drop-in-file\<close>;
  \<^item> \<open>pathDir\<close>, \<open>mkdirAll\<close>, \<open>createFile\<close>: \<^verbatim>\<open>path.Dir\<close>, and the errors of
    \<^verbatim>\<open>os.MkdirAll\<close> and \<^verbatim>\<open>os.Create\<close>.
\<close>

record env =
  transport :: "event list \<Rightarrow> request \<Rightarrow> response"
  newRequestErr :: "string \<Rightarrow> string option"
  decodeHealth :: "string \<Rightarrow> (string \<rightharpoonup> string)"
  decodeMembers :: "string \<Rightarrow> (string \<rightharpoonup> jsonMember list)"
  GetMetadata :: "string + string"
  GetExpectedMembers :: "string \<Rightarrow> string + Member list"
  NewClient :: "string option"
  dropInFile :: string
  pathDir :: "string \<Rightarrow> string"
  mkdirAll :: "string \<Rightarrow> string option"
  createFile :: "string \<Rightarrow> string option"

text \<open>
  How a run can end other than by returning from \<^verbatim>\<open>main\<close>: \<^verbatim>\<open>log.Fatal(err)\<close>
  (exit status 1), \<^verbatim>\<open>panic\<close>, \<^verbatim>\<open>os.Exit(n)\<close>.
\<close>

datatype abort =
    Fatal string
  | Panic string
  | Exit nat

text \<open>Indexing a Go map gives the zero value of the element type for a missing key.\<close>

definition indexString :: "(string \<rightharpoonup> string) \<Rightarrow> string \<Rightarrow> string" where
  "indexString m k = (case m k of None \<Rightarrow> '''' | Some v \<Rightarrow> v)"

definition indexMembers :: "(string \<rightharpoonup> jsonMember list) \<Rightarrow> string \<Rightarrow> jsonMember list" where
  "indexMembers m k = (case m k of None \<Rightarrow> [] | Some v \<Rightarrow> v)"

text \<open>\<^verbatim>\<open>strings.Join(elems, sep)\<close>\<close>

fun Join :: "string list \<Rightarrow> string \<Rightarrow> string" where
  "Join [] sep = ''''"
| "Join [x] sep = x"
| "Join (x # y # ys) sep = x @ sep @ Join (y # ys) sep"

subsection \<open>The admin client (package etcdclient)\<close>

text \<open>
  \<^verbatim>\<open>func (c *Client) FindHealthyMember(members []Member) (Member, error)\<close>: one
  \<^verbatim>\<open>GET <ClientURL>/health\<close> per candidate; \<^verbatim>\<open>continue\<close> on a transport error and
  on a decoded map whose \<^verbatim>\<open>"health"\<close> entry is not \<^verbatim>\<open>"true"\<close>, return otherwise.
\<close>

fun FindHealthyMember :: "env \<Rightarrow> Member list \<Rightarrow> event list \<Rightarrow> (string + Member) \<times> event list" where
  "FindHealthyMember e [] t = (Inl ''No healthy member found'', t)"
| "FindHealthyMember e (member # members) t =
     (let url = ClientURL member @ ''/health'' in
      case transport e t (GET url) of
        TransportError err \<Rightarrow> FindHealthyMember e members (t @ [Http (GET url)])
      | Response status body \<Rightarrow>
          (if indexString (decodeHealth e body) ''health'' \<noteq> ''true''
           then FindHealthyMember e members (t @ [Http (GET url)])
           else (Inr member, t @ [Http (GET url)])))"

text \<open>
  \<^verbatim>\<open>func (c *Client) RemoveMember(hm Member, rm Member) error\<close>: the request is
  \<^verbatim>\<open>DELETE <hm.ClientURL>/v2/members/<rm.ID>\<close>; the error of building the request or
  of the transport is returned, and \<^verbatim>\<open>nil\<close> once a response has arrived.
\<close>

definition RemoveMember :: "env \<Rightarrow> Member \<Rightarrow> Member \<Rightarrow> event list \<Rightarrow> string option \<times> event list" where
  "RemoveMember e hm rm t =
     (let t0 = t @ [RemoveMemberCall hm rm];
          url = ClientURL hm @ ''/v2/members/'' @ ID rm in
      case newRequestErr e url of
        Some err \<Rightarrow> (Some err, t0)
      | None \<Rightarrow>
          (case transport e t0 (DELETE url) of
             TransportError err \<Rightarrow> (Some err, t0 @ [Http (DELETE url)])
           | Response status body \<Rightarrow> (None, t0 @ [Http (DELETE url)])))"

text \<open>
  \<^verbatim>\<open>func (c *Client) AddMember(hm Member, am Member) error\<close>: posts
  \<^verbatim>\<open>{"name": "<am.Name>", "peerURLs": ["<am.PeerURL>"]}\<close> to
  \<^verbatim>\<open><hm.ClientURL>/v2/members\<close>.
\<close>

definition AddMember :: "env \<Rightarrow> Member \<Rightarrow> Member \<Rightarrow> event list \<Rightarrow> string option \<times> event list" where
  \<open>AddMember e hm am t =
     (let t0 = t @ [AddMemberCall hm am];
          url = ClientURL hm @ ''/v2/members'';
          byteData = ''{"name": "'' @ Name am @ ''", "peerURLs": ["'' @ PeerURL am @ ''"]}'' in
      case transport e t0 (POST url ''application/json'' byteData) of
        TransportError err \<Rightarrow> (Some err, t0 @ [Http (POST url ''application/json'' byteData)])
      | Response status body \<Rightarrow> (None, t0 @ [Http (POST url ''application/json'' byteData)]))\<close>

text \<open>
  The loop of \<^verbatim>\<open>ListMembers\<close> over \<^verbatim>\<open>jresp["members"]\<close> (later revision): the
  first URL of each array is taken only when the array is not empty, and the member is
  appended to \<^verbatim>\<open>members\<close>.
\<close>

fun ListMembers_loop :: "jsonMember list \<Rightarrow> Member list \<Rightarrow> Member list" where
  "ListMembers_loop [] members = members"
| "ListMembers_loop (jm # jms) members =
     (let m = \<lparr>ID = jm_Id jm, Name = jm_Name jm, ClientURL = '''', PeerURL = ''''\<rparr>;
          m = (if length (jm_ClientURLs jm) > 0 then m\<lparr>ClientURL := jm_ClientURLs jm ! 0\<rparr> else m);
          m = (if length (jm_PeerURLs jm) > 0 then m\<lparr>PeerURL := jm_PeerURLs jm ! 0\<rparr> else m)
      in ListMembers_loop jms (members @ [m]))"

text \<open>
  \<^verbatim>\<open>func (c *Client) ListMembers(hm Member) ([]Member, error)\<close>: one
  \<^verbatim>\<open>GET <hm.ClientURL>/v2/members\<close>; only a transport error is an error.
\<close>

definition ListMembers :: "env \<Rightarrow> Member \<Rightarrow> event list \<Rightarrow> (string + Member list) \<times> event list" where
  "ListMembers e hm t =
     (let url = ClientURL hm @ ''/v2/members'' in
      case transport e t (GET url) of
        TransportError err \<Rightarrow> (Inl err, t @ [Http (GET url)])
      | Response status body \<Rightarrow>
          (Inr (ListMembers_loop (indexMembers (decodeMembers e body) ''members'') []),
           t @ [Http (GET url)]))"

subsection \<open>The reconciler (main.go)\<close>

text \<open>The closure \<^verbatim>\<open>Expected\<close> of \<^verbatim>\<open>RemoveStaleMembers\<close>, over \<^verbatim>\<open>expectedMembers\<close>.\<close>

fun Expected :: "Member list \<Rightarrow> Member \<Rightarrow> bool" where
  "Expected [] exiM = False"
| "Expected (expM # expectedMembers) exiM =
     (if Name exiM = Name expM then True else Expected expectedMembers exiM)"

text \<open>
  \<^verbatim>\<open>func RemoveStaleMembers(c, hm, expectedMembers, existingMembers)\<close>:
  \<^verbatim>\<open>log.Fatal\<close> on the first removal that returns an error.
\<close>

fun RemoveStaleMembers ::
  "env \<Rightarrow> Member \<Rightarrow> Member list \<Rightarrow> Member list \<Rightarrow> event list \<Rightarrow> (abort + unit) \<times> event list" where
  "RemoveStaleMembers e hm expectedMembers [] t = (Inr (), t)"
| "RemoveStaleMembers e hm expectedMembers (exiM # existingMembers) t =
     (if \<not> Expected expectedMembers exiM then
        (case RemoveMember e hm exiM t of
           (Some err, t') \<Rightarrow> (Inl (Fatal err), t')
         | (None, t') \<Rightarrow> RemoveStaleMembers e hm expectedMembers existingMembers t')
      else RemoveStaleMembers e hm expectedMembers existingMembers t)"

text \<open>
  \<^verbatim>\<open>func GetMyself(expectedMembers, insId) Member\<close>: the first member named
  \<^verbatim>\<open>insId\<close>, and a panic when there is none. \<^verbatim>\<open>fmt.Sprint\<close> of two strings puts no
  space between them.
\<close>

fun GetMyself :: "Member list \<Rightarrow> string \<Rightarrow> abort + Member" where
  "GetMyself [] insId = Inl (Panic (''Couldn't find instance in expected members'' @ insId))"
| "GetMyself (member # expectedMembers) insId =
     (if Name member = insId then Inr member else GetMyself expectedMembers insId)"

text \<open>
  \<^verbatim>\<open>func MaybeAddMyself(c, hm, existingMembers, myself)\<close>: the loop sets
  \<^verbatim>\<open>exists\<close> and does not break; \<^verbatim>\<open>log.Fatal\<close> when the addition returns an error.
\<close>

definition MaybeAddMyself ::
  "env \<Rightarrow> Member \<Rightarrow> Member list \<Rightarrow> Member \<Rightarrow> event list \<Rightarrow> (abort + unit) \<times> event list" where
  "MaybeAddMyself e hm existingMembers myself t =
     (let exists = fold (\<lambda>member exists. if Name member = Name myself then True else exists)
                     existingMembers False in
      if \<not> exists then
        (case AddMember e hm myself t of
           (Some err, t') \<Rightarrow> (Inl (Fatal err), t')
         | (None, t') \<Rightarrow> (Inr (), t'))
      else (Inr (), t))"

text \<open>
  \<^verbatim>\<open>func WriteDropIn(expectedMembers, state)\<close>: \<^verbatim>\<open>initCluster\<close> collects
  \<^verbatim>\<open>fmt.Sprint(member.Name, "=", member.PeerURL)\<close> for each expected member; the
  directory and the file are created (\<^verbatim>\<open>log.Fatal\<close> on either error) and the systemd
  drop-in is printed into the file. The results of \<^verbatim>\<open>Fprintf\<close> and \<^verbatim>\<open>Close\<close> are
  discarded by the source.
\<close>

definition WriteDropIn :: "env \<Rightarrow> Member list \<Rightarrow> string \<Rightarrow> event list \<Rightarrow> (abort + unit) \<times> event list" where
  "WriteDropIn e expectedMembers state t =
     (let initCluster = fold (\<lambda>member initCluster. initCluster @ [Name member @ ''='' @ PeerURL member])
                          expectedMembers [] in
      case mkdirAll e (pathDir e (dropInFile e)) of
        Some err \<Rightarrow> (Inl (Fatal err), t)
      | None \<Rightarrow>
          (case createFile e (dropInFile e) of
             Some err \<Rightarrow> (Inl (Fatal err), t)
           | None \<Rightarrow>
               (Inr (),
                t @ [FileWritten (dropInFile e)
                       (''[Service]\<newline>Environment=ETCD_INITIAL_CLUSTER='' @ Join initCluster '',''
                        @ ''\<newline>Environment=ETCD_INITIAL_CLUSTER_STATE='' @ state @ ''\<newline>'')])))"

text \<open>
  \<^verbatim>\<open>WriteDropIn(expectedMembers, "new"); os.Exit(0)\<close>, the two statements of both
  degrade branches of \<^verbatim>\<open>main\<close>.
\<close>

definition writeNewAndExit :: "env \<Rightarrow> Member list \<Rightarrow> event list \<Rightarrow> (abort + unit) \<times> event list" where
  "writeNewAndExit e expectedMembers t =
     (case WriteDropIn e expectedMembers ''new'' t of
        (Inl a, t') \<Rightarrow> (Inl a, t')
      | (Inr u, t') \<Rightarrow> (Inl (Exit 0), t'))"

text \<open>
  \<^verbatim>\<open>func main()\<close>. The result is how the run ended (\<open>Inr ()\<close>: \<^verbatim>\<open>main\<close> returned)
  and the trace of the whole run.
\<close>

definition main :: "env \<Rightarrow> (abort + unit) \<times> event list" where
  "main e =
     (case GetMetadata e of
        Inl err \<Rightarrow> (Inl (Fatal err), [])
      | Inr instanceID \<Rightarrow>
     (case GetExpectedMembers e instanceID of
        Inl err \<Rightarrow> (Inl (Fatal err), [])
      | Inr expectedMembers \<Rightarrow>
     (case NewClient e of
        Some err \<Rightarrow> (Inl (Fatal err), [])
      | None \<Rightarrow>
     (case FindHealthyMember e expectedMembers [] of
        (Inl err, t1) \<Rightarrow> writeNewAndExit e expectedMembers t1
      | (Inr healthyMember, t1) \<Rightarrow>
     (case ListMembers e healthyMember t1 of
        (Inl err, t2) \<Rightarrow> writeNewAndExit e expectedMembers t2
      | (Inr existingMembers, t2) \<Rightarrow>
     (case RemoveStaleMembers e healthyMember expectedMembers existingMembers t2 of
        (Inl a, t3) \<Rightarrow> (Inl a, t3)
      | (Inr u, t3) \<Rightarrow>
     (case GetMyself expectedMembers instanceID of
        Inl a \<Rightarrow> (Inl a, t3)
      | Inr myself \<Rightarrow>
     (case MaybeAddMyself e healthyMember existingMembers myself t3 of
        (Inl a, t4) \<Rightarrow> (Inl a, t4)
      | (Inr u, t4) \<Rightarrow> WriteDropIn e expectedMembers ''existing'' t4))))))))"

text \<open>The exit status of the process.\<close>

fun exitStatus :: "abort + unit \<Rightarrow> nat" where
  "exitStatus (Inr u) = 0"
| "exitStatus (Inl (Exit n)) = n"
| "exitStatus (Inl (Fatal err)) = 1"
| "exitStatus (Inl (Panic err)) = 2"

subsection \<open>Observations on a trace\<close>

text \<open>
  The calls of \<^verbatim>\<open>Client.RemoveMember\<close> in a trace, in order, each as the pair of the
  member the call is sent through and the member to remove; the same for
  \<^verbatim>\<open>Client.AddMember\<close>; the files written (path and content); the HTTP requests.
\<close>

fun removeCalls :: "event list \<Rightarrow> (Member \<times> Member) list" where
  "removeCalls [] = []"
| "removeCalls (RemoveMemberCall hm rm # t) = (hm, rm) # removeCalls t"
| "removeCalls (ev # t) = removeCalls t"

fun addCalls :: "event list \<Rightarrow> (Member \<times> Member) list" where
  "addCalls [] = []"
| "addCalls (AddMemberCall hm am # t) = (hm, am) # addCalls t"
| "addCalls (ev # t) = addCalls t"

fun filesWritten :: "event list \<Rightarrow> (string \<times> string) list" where
  "filesWritten [] = []"
| "filesWritten (FileWritten p c # t) = (p, c) # filesWritten t"
| "filesWritten (ev # t) = filesWritten t"

fun requests :: "event list \<Rightarrow> request list" where
  "requests [] = []"
| "requests (Http r # t) = r # requests t"
| "requests (ev # t) = requests t"

text \<open>A request that changes the cluster: anything but a \<^verbatim>\<open>GET\<close>.\<close>

fun isMutation :: "request \<Rightarrow> bool" where
  "isMutation (GET url) = False"
| "isMutation (DELETE url) = True"
| "isMutation (POST url ctype body) = True"

subsection \<open>The vocabulary of the specification\<close>

text \<open>
  The stale members: those of the actual roster whose name no expected member has, in
  the actual roster's order.
\<close>

definition stale :: "Member list \<Rightarrow> Member list \<Rightarrow> Member list" where
  "stale expectedMembers existingMembers =
     filter (\<lambda>m. Name m \<notin> Name ` set expectedMembers) existingMembers"

text \<open>The four requests of the member-management API, as the client builds them.\<close>

definition probeRequest :: "Member \<Rightarrow> request" where
  "probeRequest m = GET (ClientURL m @ ''/health'')"

definition probeEvent :: "Member \<Rightarrow> event" where
  "probeEvent m = Http (probeRequest m)"

definition listRequest :: "Member \<Rightarrow> request" where
  "listRequest hm = GET (ClientURL hm @ ''/v2/members'')"

definition removeRequest :: "Member \<Rightarrow> Member \<Rightarrow> request" where
  "removeRequest hm rm = DELETE (ClientURL hm @ ''/v2/members/'' @ ID rm)"

definition addRequest :: "Member \<Rightarrow> Member \<Rightarrow> request" where
  \<open>addRequest hm am =
     POST (ClientURL hm @ ''/v2/members'') ''application/json''
       (''{"name": "'' @ Name am @ ''", "peerURLs": ["'' @ PeerURL am @ ''"]}'')\<close>

text \<open>
  A member's health probe succeeds, when it is probed after the trace \<open>t\<close>: the
  transport delivers a response and the decoded payload maps \<^verbatim>\<open>"health"\<close> to
  \<^verbatim>\<open>"true"\<close>.
\<close>

definition healthyAt :: "env \<Rightarrow> event list \<Rightarrow> Member \<Rightarrow> bool" where
  "healthyAt e t m =
     (case transport e t (probeRequest m) of
        TransportError err \<Rightarrow> False
      | Response status body \<Rightarrow> decodeHealth e body ''health'' = Some ''true'')"

text \<open>
  The member that the specification reads off one element of the \<^verbatim>\<open>members\<close>
  array: the first URL of each array, and the empty string for an empty array.
\<close>

definition firstOrEmpty :: "string list \<Rightarrow> string" where
  "firstOrEmpty urls = (case urls of [] \<Rightarrow> '''' | u # rest \<Rightarrow> u)"

definition toMember :: "jsonMember \<Rightarrow> Member" where
  "toMember jm =
     \<lparr>ID = jm_Id jm, Name = jm_Name jm,
      ClientURL = firstOrEmpty (jm_ClientURLs jm), PeerURL = firstOrEmpty (jm_PeerURLs jm)\<rparr>"

text \<open>
  The bootstrap directive: the \<^verbatim>\<open>name=peerURL\<close> pair of every member of a roster, in
  the roster's order, and the drop-in file that carries the comma-joined pairs and the
  mode.
\<close>

definition peerList :: "Member list \<Rightarrow> string list" where
  "peerList expectedMembers = map (\<lambda>m. Name m @ ''='' @ PeerURL m) expectedMembers"

definition directive :: "Member list \<Rightarrow> string \<Rightarrow> string" where
  "directive expectedMembers mode =
     ''[Service]\<newline>Environment=ETCD_INITIAL_CLUSTER='' @ Join (peerList expectedMembers) '',''
       @ ''\<newline>Environment=ETCD_INITIAL_CLUSTER_STATE='' @ mode @ ''\<newline>''"

text \<open>The requests of a trace that change the cluster, in order.\<close>

definition mutations :: "event list \<Rightarrow> request list" where
  "mutations t = filter isMutation (requests t)"

text \<open>
  The configuration error of the specification: the panic of \<^verbatim>\<open>GetMyself\<close> for an
  instance that is not among the expected members.
\<close>

definition ConfigurationError :: "string \<Rightarrow> abort" where
  "ConfigurationError insId = Panic (''Couldn't find instance in expected members'' @ insId)"

text \<open>
  The events of the removals of the members \<open>rms\<close> through \<open>hm\<close>, one after the
  other, when each request can be built: the call and its \<^verbatim>\<open>DELETE\<close> request.
\<close>

definition pruneTrace :: "Member \<Rightarrow> Member list \<Rightarrow> event list" where
  "pruneTrace hm rms = concat (map (\<lambda>rm. [RemoveMemberCall hm rm, Http (removeRequest hm rm)]) rms)"

text \<open>
  The environment answers the removal of \<open>rm\<close> through \<open>hm\<close>, when it is called
  after the trace \<open>t\<close>: the request can be built and the transport delivers a
  response to it, of whatever status.
\<close>

definition removalAnswered :: "env \<Rightarrow> Member \<Rightarrow> event list \<Rightarrow> Member \<Rightarrow> bool" where
  "removalAnswered e hm t rm =
     (case newRequestErr e (ClientURL hm @ ''/v2/members/'' @ ID rm) of
        Some err \<Rightarrow> False
      | None \<Rightarrow>
          (case transport e (t @ [RemoveMemberCall hm rm]) (removeRequest hm rm) of
             TransportError err \<Rightarrow> False
           | Response status body \<Rightarrow> True))"

subsection \<open>Concrete runs\<close>

text \<open>
  A three-node inventory and a cluster's record of it. Expected members come from the
  inventory and carry no \<open>ID\<close>; \<open>joiningD\<close> is a member in the middle of joining, with
  no URL recorded yet, and \<open>movedA\<close> is \<open>A\<close> recorded under other URLs.
\<close>

definition memberA :: Member where
  "memberA = \<lparr>ID = '''', Name = ''A'', ClientURL = ''http://a:2379'', PeerURL = ''http://a:2380''\<rparr>"

definition memberB :: Member where
  "memberB = \<lparr>ID = '''', Name = ''B'', ClientURL = ''http://b:2379'', PeerURL = ''http://b:2380''\<rparr>"

definition recordedA :: jsonMember where
  "recordedA = \<lparr>jm_Id = ''1'', jm_Name = ''A'', jm_ClientURLs = [''http://a:2379''],
                  jm_PeerURLs = [''http://a:2380'']\<rparr>"

definition recordedB :: jsonMember where
  "recordedB = \<lparr>jm_Id = ''2'', jm_Name = ''B'', jm_ClientURLs = [''http://b:2379''],
                  jm_PeerURLs = [''http://b:2380'']\<rparr>"

definition recordedC :: jsonMember where
  "recordedC = \<lparr>jm_Id = ''3'', jm_Name = ''C'', jm_ClientURLs = [''http://c:2379''],
                  jm_PeerURLs = [''http://c:2380'']\<rparr>"

definition joiningD :: jsonMember where
  "joiningD = \<lparr>jm_Id = ''4'', jm_Name = ''D'', jm_ClientURLs = [], jm_PeerURLs = []\<rparr>"

definition movedA :: jsonMember where
  "movedA = \<lparr>jm_Id = ''9'', jm_Name = ''A'', jm_ClientURLs = [''http://x:2379'', ''http://y:2379''],
               jm_PeerURLs = [''http://x:2380'']\<rparr>"

text \<open>
  The behaviours of the network. \<open>clusterUp\<close>: \<open>A\<close> answers its health probe and
  the listing, and accepts removals and additions; nobody else answers.
  \<open>clusterDown\<close>: every request fails in the transport. \<open>clusterRejecting\<close>: as
  \<open>clusterUp\<close>, but removals are answered with status 500 and additions with 409.
  \<open>clusterLosingRemovals\<close>: as \<open>clusterUp\<close>, but the transport fails on removals.
  \<open>clusterListingLost\<close>: as \<open>clusterUp\<close>, but the transport fails on the listing.
  \<open>clusterListingBroken\<close>: as \<open>clusterUp\<close>, but the listing is answered with
  status 500 and a body that is not the JSON of a listing.
\<close>

definition clusterUp :: "event list \<Rightarrow> request \<Rightarrow> response" where
  \<open>clusterUp t r =
     (case r of
        GET url \<Rightarrow>
          if url = ''http://a:2379/health'' then Response 200 ''{"health": "true"}''
          else if url = ''http://a:2379/v2/members'' then Response 200 ''members''
          else TransportError ''connection refused''
      | DELETE url \<Rightarrow> Response 204 ''''
      | POST url ctype body \<Rightarrow> Response 201 '''')\<close>

definition clusterDown :: "event list \<Rightarrow> request \<Rightarrow> response" where
  "clusterDown t r = TransportError ''connection refused''"

definition clusterRejecting :: "event list \<Rightarrow> request \<Rightarrow> response" where
  "clusterRejecting t r =
     (case r of
        GET url \<Rightarrow> clusterUp t r
      | DELETE url \<Rightarrow> Response 500 ''''
      | POST url ctype body \<Rightarrow> Response 409 '''')"

definition clusterLosingRemovals :: "event list \<Rightarrow> request \<Rightarrow> response" where
  "clusterLosingRemovals t r =
     (case r of
        GET url \<Rightarrow> clusterUp t r
      | DELETE url \<Rightarrow> TransportError ''timeout''
      | POST url ctype body \<Rightarrow> clusterUp t r)"

definition clusterListingLost :: "event list \<Rightarrow> request \<Rightarrow> response" where
  "clusterListingLost t r =
     (if r = GET ''http://a:2379/v2/members'' then TransportError ''timeout'' else clusterUp t r)"

definition clusterListingBroken :: "event list \<Rightarrow> request \<Rightarrow> response" where
  "clusterListingBroken t r =
     (if r = GET ''http://a:2379/v2/members'' then Response 500 ''Internal Server Error''
      else clusterUp t r)"

text \<open>
  The environment of a run on the instance \<open>instanceID\<close>, with the inventory
  \<open>expected\<close>, a cluster that has \<open>recorded\<close> as its members, and the network
  \<open>net\<close>. The body \<^verbatim>\<open>members\<close> stands for the JSON text of the listing.
\<close>

definition scenario ::
  "string \<Rightarrow> Member list \<Rightarrow> jsonMember list \<Rightarrow> (event list \<Rightarrow> request \<Rightarrow> response) \<Rightarrow> env" where
  \<open>scenario instanceID expected recorded net =
     \<lparr>transport = net,
      newRequestErr = (\<lambda>url. None),
      decodeHealth = (\<lambda>body. if body = ''{"health": "true"}'' then [''health'' \<mapsto> ''true''] else Map.empty),
      decodeMembers = (\<lambda>body. if body = ''members'' then [''members'' \<mapsto> recorded] else Map.empty),
      GetMetadata = Inr instanceID,
      GetExpectedMembers = (\<lambda>insId. Inr expected),
      NewClient = None,
      dropInFile = ''/run/etcdmate.conf'',
      pathDir = (\<lambda>p. ''/run''),
      mkdirAll = (\<lambda>d. None),
      createFile = (\<lambda>f. None)\<rparr>\<close>

section \<open>Properties of the client and of the reconciler\<close>

lemmas scenario_defs =
  scenario_def clusterUp_def clusterDown_def clusterRejecting_def clusterLosingRemovals_def
  memberA_def memberB_def recordedA_def recordedB_def recordedC_def joiningD_def movedA_def

lemma removeCalls_append [simp]: "removeCalls (a @ b) = removeCalls a @ removeCalls b"
  by (induction a rule: removeCalls.induct) simp_all

lemma addCalls_append [simp]: "addCalls (a @ b) = addCalls a @ addCalls b"
  by (induction a rule: addCalls.induct) simp_all

lemma filesWritten_append [simp]: "filesWritten (a @ b) = filesWritten a @ filesWritten b"
  by (induction a rule: filesWritten.induct) simp_all

lemma requests_append [simp]: "requests (a @ b) = requests a @ requests b"
  by (induction a rule: requests.induct) simp_all

lemma Expected_iff: "Expected expectedMembers exiM \<longleftrightarrow> Name exiM \<in> Name ` set expectedMembers"
  by (induction expectedMembers) auto

lemma indexString_true: "indexString m k = ''true'' \<longleftrightarrow> m k = Some ''true''"
  by (auto simp: indexString_def split: option.splits)

lemma FindHealthyMember_step:
  "FindHealthyMember e (m # ms) t =
     (if healthyAt e t m then (Inr m, t @ [probeEvent m])
      else FindHealthyMember e ms (t @ [probeEvent m]))"
  by (simp add: healthyAt_def probeEvent_def probeRequest_def indexString_true split: response.splits)

lemma FindHealthyMember_found:
  "FindHealthyMember e ms t = (Inr hm, t') \<Longrightarrow>
     \<exists>i < length ms. hm = ms ! i \<and> healthyAt e (t @ map probeEvent (take i ms)) hm
       \<and> (\<forall>j < i. \<not> healthyAt e (t @ map probeEvent (take j ms)) (ms ! j))
       \<and> t' = t @ map probeEvent (take (Suc i) ms)"
proof (induction ms arbitrary: t)
  case Nil
  then show ?case by simp
next
  case (Cons m ms)
  show ?case
  proof (cases "healthyAt e t m")
    case True
    with Cons.prems have "hm = m" "t' = t @ [probeEvent m]"
      by (auto simp add: FindHealthyMember_step simp del: FindHealthyMember.simps)
    with True show ?thesis by (intro exI[of _ 0]) simp
  next
    case False
    with Cons.prems have "FindHealthyMember e ms (t @ [probeEvent m]) = (Inr hm, t')"
      by (simp add: FindHealthyMember_step del: FindHealthyMember.simps)
    from Cons.IH[OF this] obtain i where i: "i < length ms" "hm = ms ! i"
      "healthyAt e ((t @ [probeEvent m]) @ map probeEvent (take i ms)) hm"
      "\<forall>j < i. \<not> healthyAt e ((t @ [probeEvent m]) @ map probeEvent (take j ms)) (ms ! j)"
      "t' = (t @ [probeEvent m]) @ map probeEvent (take (Suc i) ms)"
      by blast
    have "\<forall>j < Suc i. \<not> healthyAt e (t @ map probeEvent (take j (m # ms))) ((m # ms) ! j)"
    proof (intro allI impI)
      fix j assume "j < Suc i"
      then show "\<not> healthyAt e (t @ map probeEvent (take j (m # ms))) ((m # ms) ! j)"
        using False i(4) by (cases j) simp_all
    qed
    with i show ?thesis by (intro exI[of _ "Suc i"]) simp
  qed
qed

lemma FindHealthyMember_none:
  "FindHealthyMember e ms t = (Inl err, t') \<Longrightarrow>
     err = ''No healthy member found''
       \<and> (\<forall>j < length ms. \<not> healthyAt e (t @ map probeEvent (take j ms)) (ms ! j))
       \<and> t' = t @ map probeEvent ms"
proof (induction ms arbitrary: t)
  case Nil
  then show ?case by simp
next
  case (Cons m ms)
  show ?case
  proof (cases "healthyAt e t m")
    case True
    with Cons.prems show ?thesis by (simp add: FindHealthyMember_step del: FindHealthyMember.simps)
  next
    case False
    with Cons.prems have "FindHealthyMember e ms (t @ [probeEvent m]) = (Inl err, t')"
      by (simp add: FindHealthyMember_step del: FindHealthyMember.simps)
    from Cons.IH[OF this] have ih: "err = ''No healthy member found''"
      "\<forall>j < length ms. \<not> healthyAt e ((t @ [probeEvent m]) @ map probeEvent (take j ms)) (ms ! j)"
      "t' = (t @ [probeEvent m]) @ map probeEvent ms"
      by blast+
    have "\<forall>j < length (m # ms). \<not> healthyAt e (t @ map probeEvent (take j (m # ms))) ((m # ms) ! j)"
    proof (intro allI impI)
      fix j assume "j < length (m # ms)"
      then show "\<not> healthyAt e (t @ map probeEvent (take j (m # ms))) ((m # ms) ! j)"
        using False ih(2) by (cases j) simp_all
    qed
    with ih show ?thesis by simp
  qed
qed

lemma probes_removeCalls [simp]: "removeCalls (map probeEvent ms) = []"
  by (induction ms) (simp_all add: probeEvent_def)

lemma probes_addCalls [simp]: "addCalls (map probeEvent ms) = []"
  by (induction ms) (simp_all add: probeEvent_def)

lemma probes_filesWritten [simp]: "filesWritten (map probeEvent ms) = []"
  by (induction ms) (simp_all add: probeEvent_def)

lemma probes_requests [simp]: "requests (map probeEvent ms) = map probeRequest ms"
  by (induction ms) (simp_all add: probeEvent_def)

lemma FindHealthyMember_events:
  assumes "FindHealthyMember e ms t = (r, t')"
  shows "\<exists>k \<le> length ms. t' = t @ map probeEvent (take k ms)"
proof (cases r)
  case (Inl err)
  with assms have "t' = t @ map probeEvent (take (length ms) ms)"
    by (auto dest: FindHealthyMember_none)
  then show ?thesis by blast
next
  case (Inr hm)
  with assms obtain i where "i < length ms" "t' = t @ map probeEvent (take (Suc i) ms)"
    by (blast dest: FindHealthyMember_found)
  then show ?thesis by (intro exI[of _ "Suc i"]) simp
qed

lemma FindHealthyMember_member:
  "FindHealthyMember e ms t = (Inr hm, t') \<Longrightarrow> hm \<in> set ms"
  by (auto dest!: FindHealthyMember_found)

lemma FindHealthyMember_quiet:
  assumes "FindHealthyMember e ms t = (r, t')"
  shows "removeCalls t' = removeCalls t" "addCalls t' = addCalls t" "filesWritten t' = filesWritten t"
  using FindHealthyMember_events[OF assms] by auto

lemma ListMembers_loop_eq: "ListMembers_loop jms members = members @ map toMember jms"
  by (induction jms arbitrary: members)
     (simp_all add: toMember_def firstOrEmpty_def Let_def split: list.splits)

lemma ListMembers_eq:
  "ListMembers e hm t =
     (case transport e t (listRequest hm) of
        TransportError err \<Rightarrow> Inl err
      | Response status body \<Rightarrow> Inr (map toMember (indexMembers (decodeMembers e body) ''members'')),
      t @ [Http (listRequest hm)])"
  by (simp add: ListMembers_def listRequest_def ListMembers_loop_eq split: response.splits)

lemma ListMembers_quiet:
  assumes "ListMembers e hm t = (r, t')"
  shows "removeCalls t' = removeCalls t" "addCalls t' = addCalls t" "filesWritten t' = filesWritten t"
    "t' = t @ [Http (listRequest hm)]"
  using assms by (auto simp: ListMembers_eq)

lemma RemoveMember_eq:
  "RemoveMember e hm rm t =
     (case newRequestErr e (ClientURL hm @ ''/v2/members/'' @ ID rm) of
        Some err \<Rightarrow> (Some err, t @ [RemoveMemberCall hm rm])
      | None \<Rightarrow>
          (case transport e (t @ [RemoveMemberCall hm rm]) (removeRequest hm rm) of
             TransportError err \<Rightarrow> Some err
           | Response status body \<Rightarrow> None,
           t @ [RemoveMemberCall hm rm, Http (removeRequest hm rm)]))"
  by (simp add: RemoveMember_def removeRequest_def Let_def split: option.splits response.splits)

lemma RemoveMember_calls:
  assumes "RemoveMember e hm rm t = (r, t')"
  shows "removeCalls t' = removeCalls t @ [(hm, rm)]" "addCalls t' = addCalls t"
    "filesWritten t' = filesWritten t"
  using assms by (auto simp: RemoveMember_eq split: option.splits)

lemma AddMember_eq:
  "AddMember e hm am t =
     (case transport e (t @ [AddMemberCall hm am]) (addRequest hm am) of
        TransportError err \<Rightarrow> Some err
      | Response status body \<Rightarrow> None,
      t @ [AddMemberCall hm am, Http (addRequest hm am)])"
  by (simp add: AddMember_def addRequest_def Let_def split: response.splits)

lemma AddMember_calls:
  assumes "AddMember e hm am t = (r, t')"
  shows "removeCalls t' = removeCalls t" "addCalls t' = addCalls t @ [(hm, am)]"
    "filesWritten t' = filesWritten t"
  using assms by (auto simp: AddMember_eq)

lemma stale_Cons:
  "stale R (m # A) = (if Expected R m then stale R A else m # stale R A)"
  by (simp add: stale_def Expected_iff)

lemma RemoveStaleMembers_append:
  "RemoveStaleMembers e hm R (xs @ ys) t =
     (case RemoveStaleMembers e hm R xs t of
        (Inl a, t') \<Rightarrow> (Inl a, t')
      | (Inr u, t') \<Rightarrow> RemoveStaleMembers e hm R ys t')"
  by (induction xs arbitrary: t) (auto split: prod.splits option.splits sum.splits)

lemma RemoveStaleMembers_done:
  "RemoveStaleMembers e hm R A t = (Inr u, t') \<Longrightarrow>
     removeCalls t' = removeCalls t @ map (Pair hm) (stale R A)
       \<and> addCalls t' = addCalls t \<and> filesWritten t' = filesWritten t"
proof (induction A arbitrary: t)
  case Nil
  then show ?case by (simp add: stale_def)
next
  case (Cons m A)
  show ?case
  proof (cases "Expected R m")
    case True
    with Cons show ?thesis by (simp add: stale_Cons)
  next
    case False
    with Cons.prems obtain t1 where rm: "RemoveMember e hm m t = (None, t1)"
      and rest: "RemoveStaleMembers e hm R A t1 = (Inr u, t')"
      by (auto split: prod.splits option.splits)
    from Cons.IH[OF rest] RemoveMember_calls[OF rm] False show ?thesis
      by (simp add: stale_Cons)
  qed
qed

lemma RemoveStaleMembers_aborted:
  "RemoveStaleMembers e hm R A t = (Inl a, t') \<Longrightarrow>
     (\<exists>err. a = Fatal err)
       \<and> (\<exists>k < length (stale R A). removeCalls t' = removeCalls t @ map (Pair hm) (take (Suc k) (stale R A)))
       \<and> addCalls t' = addCalls t \<and> filesWritten t' = filesWritten t"
proof (induction A arbitrary: t)
  case Nil
  then show ?case by simp
next
  case (Cons m A)
  show ?case
  proof (cases "Expected R m")
    case True
    with Cons show ?thesis by (simp add: stale_Cons)
  next
    case False
    obtain r t1 where rm: "RemoveMember e hm m t = (r, t1)" by (cases "RemoveMember e hm m t")
    note calls = RemoveMember_calls[OF rm]
    show ?thesis
    proof (cases r)
      case (Some err)
      with Cons.prems False rm have "a = Fatal err" "t' = t1" by simp_all
      with calls False show ?thesis
        by (auto simp: stale_Cons intro!: exI[of _ 0])
    next
      case None
      with Cons.prems False rm have rest: "RemoveStaleMembers e hm R A t1 = (Inl a, t')" by simp
      from Cons.IH[OF rest] obtain k where k: "k < length (stale R A)"
        "removeCalls t' = removeCalls t1 @ map (Pair hm) (take (Suc k) (stale R A))"
        and others: "\<exists>err. a = Fatal err" "addCalls t' = addCalls t1" "filesWritten t' = filesWritten t1"
        by blast
      from k calls False have "Suc k < length (stale R (m # A))"
        "removeCalls t' = removeCalls t @ map (Pair hm) (take (Suc (Suc k)) (stale R (m # A)))"
        by (simp_all add: stale_Cons)
      with others calls show ?thesis by metis
    qed
  qed
qed

lemma RemoveStaleMembers_first_failure:
  assumes "RemoveStaleMembers e hm R pre t = (Inr u, t1)"
    and "\<not> Expected R m"
    and "RemoveMember e hm m t1 = (Some err, t2)"
  shows "RemoveStaleMembers e hm R (pre @ m # rest) t = (Inl (Fatal err), t2)"
  using assms by (simp add: RemoveStaleMembers_append)

lemma exists_fold:
  "fold (\<lambda>member exists. if Name member = n then True else exists) A b \<longleftrightarrow> b \<or> n \<in> Name ` set A"
  by (induction A arbitrary: b) auto

lemma MaybeAddMyself_eq:
  "MaybeAddMyself e hm A myself t =
     (if Name myself \<in> Name ` set A then (Inr (), t)
      else (case AddMember e hm myself t of
              (Some err, t') \<Rightarrow> (Inl (Fatal err), t')
            | (None, t') \<Rightarrow> (Inr (), t')))"
  by (simp add: MaybeAddMyself_def exists_fold)

lemma GetMyself_missing:
  "insId \<notin> Name ` set R \<Longrightarrow>
     GetMyself R insId = Inl (Panic (''Couldn't find instance in expected members'' @ insId))"
  by (induction R) auto

lemma GetMyself_found:
  "insId \<in> Name ` set R \<Longrightarrow>
     \<exists>pre me post. R = pre @ me # post \<and> Name me = insId \<and> insId \<notin> Name ` set pre
       \<and> GetMyself R insId = Inr me"
proof (induction R)
  case Nil
  then show ?case by simp
next
  case (Cons m R)
  show ?case
  proof (cases "Name m = insId")
    case True
    then show ?thesis by (intro exI[of _ "[]"] exI[of _ m] exI[of _ R]) simp
  next
    case False
    with Cons obtain pre me post where "R = pre @ me # post" "Name me = insId"
      "insId \<notin> Name ` set pre" "GetMyself R insId = Inr me"
      by auto
    with False show ?thesis
      by (intro exI[of _ "m # pre"] exI[of _ me] exI[of _ post]) simp
  qed
qed

lemma initCluster_fold:
  "fold (\<lambda>member initCluster. initCluster @ [Name member @ ''='' @ PeerURL member]) R acc
     = acc @ peerList R"
  by (induction R arbitrary: acc) (simp_all add: peerList_def)

lemma WriteDropIn_eq:
  "WriteDropIn e R mode t =
     (case mkdirAll e (pathDir e (dropInFile e)) of
        Some err \<Rightarrow> (Inl (Fatal err), t)
      | None \<Rightarrow>
          (case createFile e (dropInFile e) of
             Some err \<Rightarrow> (Inl (Fatal err), t)
           | None \<Rightarrow> (Inr (), t @ [FileWritten (dropInFile e) (directive R mode)])))"
  unfolding WriteDropIn_def directive_def initCluster_fold Let_def append_Nil by (rule refl)

lemma mutations_append [simp]: "mutations (a @ b) = mutations a @ mutations b"
  by (simp add: mutations_def)

lemma mutations_simps [simp]:
  "mutations [] = []"
  "mutations (RemoveMemberCall hm rm # t) = mutations t"
  "mutations (AddMemberCall hm am # t) = mutations t"
  "mutations (FileWritten p c # t) = mutations t"
  "mutations (Http r # t) = (if isMutation r then r # mutations t else mutations t)"
  by (simp_all add: mutations_def)

lemma probes_mutations [simp]: "mutations (map probeEvent ms) = []"
  by (induction ms) (simp_all add: probeEvent_def probeRequest_def)

lemma FindHealthyMember_mutations:
  assumes "FindHealthyMember e ms t = (r, t')"
  shows "mutations t' = mutations t"
  using FindHealthyMember_events[OF assms] by auto

lemma ListMembers_mutations:
  assumes "ListMembers e hm t = (r, t')"
  shows "mutations t' = mutations t"
  using assms by (auto simp: ListMembers_eq listRequest_def)

lemma RemoveMember_mutations:
  assumes "RemoveMember e hm rm t = (r, t')"
  shows "set (mutations t') \<subseteq> insert (removeRequest hm rm) (set (mutations t))"
  using assms by (auto simp: RemoveMember_eq removeRequest_def split: option.splits)

lemma AddMember_mutations:
  assumes "AddMember e hm am t = (r, t')"
  shows "mutations t' = mutations t @ [addRequest hm am]"
  using assms by (auto simp: AddMember_eq addRequest_def)

lemma RemoveStaleMembers_mutations:
  "RemoveStaleMembers e hm R A t = (r, t') \<Longrightarrow>
     set (mutations t') \<subseteq> set (mutations t) \<union> removeRequest hm ` set (stale R A)"
proof (induction A arbitrary: t)
  case Nil
  then show ?case by simp
next
  case (Cons m A)
  show ?case
  proof (cases "Expected R m")
    case True
    with Cons show ?thesis by (simp add: stale_Cons)
  next
    case False
    obtain r1 t1 where rm: "RemoveMember e hm m t = (r1, t1)" by (cases "RemoveMember e hm m t")
    note step = RemoveMember_mutations[OF rm]
    show ?thesis
    proof (cases r1)
      case (Some err)
      with Cons.prems False rm have "t' = t1" by simp
      with step False show ?thesis by (auto simp: stale_Cons)
    next
      case None
      with Cons.prems False rm have "RemoveStaleMembers e hm R A t1 = (r, t')" by simp
      from Cons.IH[OF this] step False show ?thesis by (auto simp: stale_Cons)
    qed
  qed
qed

lemma GetMyself_find:
  "GetMyself R insId =
     (case find (\<lambda>m. Name m = insId) R of
        None \<Rightarrow> Inl (Panic (''Couldn't find instance in expected members'' @ insId))
      | Some me \<Rightarrow> Inr me)"
  by (induction R) simp_all

lemma find_self_None: "find (\<lambda>m. Name m = insId) R = None \<longleftrightarrow> insId \<notin> Name ` set R"
  by (auto simp: find_None_iff)

lemma find_self_Some:
  "find (\<lambda>m. Name m = insId) R = Some me \<Longrightarrow> me \<in> set R \<and> Name me = insId"
  by (auto simp: find_Some_iff)

lemma main_reconcile:
  assumes "GetMetadata e = Inr insId" "GetExpectedMembers e insId = Inr R" "NewClient e = None"
    and "FindHealthyMember e R [] = (Inr hm, t1)" "ListMembers e hm t1 = (Inr A, t2)"
  shows "main e =
     (case RemoveStaleMembers e hm R A t2 of
        (Inl a, t3) \<Rightarrow> (Inl a, t3)
      | (Inr u, t3) \<Rightarrow>
          (case GetMyself R insId of
             Inl a \<Rightarrow> (Inl a, t3)
           | Inr myself \<Rightarrow>
               (case MaybeAddMyself e hm A myself t3 of
                  (Inl a, t4) \<Rightarrow> (Inl a, t4)
                | (Inr u, t4) \<Rightarrow> WriteDropIn e R ''existing'' t4)))"
  using assms by (simp add: main_def)

lemma main_degrade:
  assumes "GetMetadata e = Inr insId" "GetExpectedMembers e insId = Inr R" "NewClient e = None"
    and "FindHealthyMember e R [] = (Inl err, t1)
         \<or> (FindHealthyMember e R [] = (Inr hm, t0) \<and> ListMembers e hm t0 = (Inl err, t1))"
  shows "main e = writeNewAndExit e R t1"
  using assms by (auto simp: main_def)

lemma quiet_start:
  assumes "FindHealthyMember e R [] = (Inr hm, t1)" "ListMembers e hm t1 = (r, t2)"
  shows "removeCalls t2 = []" "addCalls t2 = []" "filesWritten t2 = []" "mutations t2 = []"
  using FindHealthyMember_quiet[OF assms(1)] ListMembers_quiet[OF assms(2)]
    FindHealthyMember_mutations[OF assms(1)] ListMembers_mutations[OF assms(2)]
  by simp_all

lemma Join_Cons: "Join (x # xs) sep = x @ concat (map (\<lambda>y. sep @ y) xs)"
  by (induction xs arbitrary: x) simp_all

lemma WriteDropIn_cases:
  assumes "WriteDropIn e R mode t = (r, t')"
  shows "(r = Inr () \<and> t' = t @ [FileWritten (dropInFile e) (directive R mode)])
         \<or> ((\<exists>err. r = Inl (Fatal err)) \<and> t' = t)"
  using assms by (auto simp: WriteDropIn_eq split: option.splits)

lemma writeNewAndExit_cases:
  assumes "writeNewAndExit e R t = (r, t')"
  shows "(r = Inl (Exit 0) \<and> t' = t @ [FileWritten (dropInFile e) (directive R ''new'')])
         \<or> ((\<exists>err. r = Inl (Fatal err)) \<and> t' = t)"
proof -
  obtain r0 t0 where w: "WriteDropIn e R ''new'' t = (r0, t0)" by (cases "WriteDropIn e R ''new'' t")
  from WriteDropIn_cases[OF w] w assms show ?thesis
    by (auto simp: writeNewAndExit_def)
qed

lemma MaybeAddMyself_cases:
  assumes "MaybeAddMyself e hm A me t = (r, t')"
  shows "(Name me \<in> Name ` set A \<and> r = Inr () \<and> t' = t)
         \<or> (Name me \<notin> Name ` set A \<and> t' = t @ [AddMemberCall hm me, Http (addRequest hm me)]
              \<and> AddMember e hm me t = (case r of Inl (Fatal err) \<Rightarrow> Some err | _ \<Rightarrow> None, t')
              \<and> (r = Inr () \<or> (\<exists>err. r = Inl (Fatal err))))"
  using assms by (auto simp: MaybeAddMyself_eq AddMember_eq split: response.splits if_splits)

lemma RemoveStaleMembers_result:
  assumes "RemoveStaleMembers e hm R A t = (r, t')"
  shows "r = Inr () \<or> (\<exists>err. r = Inl (Fatal err))"
proof (cases r)
  case (Inl a)
  with assms RemoveStaleMembers_aborted[of e hm R A t a t'] show ?thesis by simp
next
  case (Inr u)
  then show ?thesis by simp
qed

lemma RemoveStaleMembers_quiet:
  assumes "RemoveStaleMembers e hm R A t = (r, t')"
  shows "addCalls t' = addCalls t" "filesWritten t' = filesWritten t"
proof -
  have "addCalls t' = addCalls t \<and> filesWritten t' = filesWritten t"
  proof (cases r)
    case (Inl a)
    with assms RemoveStaleMembers_aborted[of e hm R A t a t'] show ?thesis by simp
  next
    case (Inr u)
    with assms RemoveStaleMembers_done[of e hm R A t u t'] show ?thesis by simp
  qed
  then show "addCalls t' = addCalls t" "filesWritten t' = filesWritten t" by simp_all
qed

lemma reconcile_cases:
  assumes "GetMetadata e = Inr insId" "GetExpectedMembers e insId = Inr R" "NewClient e = None"
    and "FindHealthyMember e R [] = (Inr hm, t1)" "ListMembers e hm t1 = (Inr A, t2)"
    and "RemoveStaleMembers e hm R A t2 = (r3, t3)"
  shows "(\<exists>err. r3 = Inl (Fatal err) \<and> main e = (Inl (Fatal err), t3))
         \<or> (r3 = Inr () \<and> find (\<lambda>m. Name m = insId) R = None
              \<and> main e = (Inl (ConfigurationError insId), t3))
         \<or> (\<exists>me. r3 = Inr () \<and> find (\<lambda>m. Name m = insId) R = Some me
              \<and> main e = (case MaybeAddMyself e hm A me t3 of
                            (Inl a, t4) \<Rightarrow> (Inl a, t4)
                          | (Inr u, t4) \<Rightarrow> WriteDropIn e R ''existing'' t4))"
proof -
  note rec = main_reconcile[OF assms(1-5)]
  from RemoveStaleMembers_result[OF assms(6)] show ?thesis
  proof
    assume ok: "r3 = Inr ()"
    show ?thesis
    proof (cases "find (\<lambda>m. Name m = insId) R")
      case None
      with ok assms(6) rec show ?thesis
        by (simp add: GetMyself_find ConfigurationError_def)
    next
      case (Some me)
      with ok assms(6) rec show ?thesis
        by (simp add: GetMyself_find)
    qed
  next
    assume "\<exists>err. r3 = Inl (Fatal err)"
    then obtain err where "r3 = Inl (Fatal err)" ..
    with assms(6) rec show ?thesis by simp
  qed
qed

lemma RemoveStaleMembers_nothing_stale:
  "stale R A = [] \<Longrightarrow> RemoveStaleMembers e hm R A t = (Inr (), t)"
  by (induction A) (simp_all add: stale_Cons split: if_splits)

lemma main_shape:
  assumes "GetMetadata e = Inr insId" "GetExpectedMembers e insId = Inr R" "NewClient e = None"
    and "FindHealthyMember e R [] = (Inr hm, t1)" "ListMembers e hm t1 = (Inr A, t2)"
    and "RemoveStaleMembers e hm R A t2 = (r3, t3)"
  shows "snd (main e) = t3
         \<or> (\<exists>me rest. r3 = Inr () \<and> find (\<lambda>m. Name m = insId) R = Some me
               \<and> (rest = [] \<or> rest = [FileWritten (dropInFile e) (directive R ''existing'')])
               \<and> (if Name me \<in> Name ` set A then snd (main e) = t3 @ rest
                   else snd (main e) = t3 @ [AddMemberCall hm me, Http (addRequest hm me)] @ rest))"
proof -
  from reconcile_cases[OF assms] show ?thesis
  proof (elim disjE exE conjE)
    fix me
    assume ok: "r3 = Inr ()" and me: "find (\<lambda>m. Name m = insId) R = Some me"
      and m: "main e = (case MaybeAddMyself e hm A me t3 of
                            (Inl a, t4) \<Rightarrow> (Inl a, t4)
                          | (Inr u, t4) \<Rightarrow> WriteDropIn e R ''existing'' t4)"
    obtain r4 t4 where mam: "MaybeAddMyself e hm A me t3 = (r4, t4)"
      by (cases "MaybeAddMyself e hm A me t3")
    obtain r5 t5 where w: "WriteDropIn e R ''existing'' t4 = (r5, t5)"
      by (cases "WriteDropIn e R ''existing'' t4")
    have t4: "t4 = (if Name me \<in> Name ` set A then t3 else t3 @ [AddMemberCall hm me, Http (addRequest hm me)])"
      using MaybeAddMyself_cases[OF mam] by auto
    have "snd (main e) = t4 \<or> snd (main e) = t4 @ [FileWritten (dropInFile e) (directive R ''existing'')]"
      using m mam w WriteDropIn_cases[OF w] by (cases r4) auto
    then have "\<exists>rest. (rest = [] \<or> rest = [FileWritten (dropInFile e) (directive R ''existing'')])
                 \<and> snd (main e) = t4 @ rest"
      by auto
    then obtain rest where "rest = [] \<or> rest = [FileWritten (dropInFile e) (directive R ''existing'')]"
      "snd (main e) = t4 @ rest" by blast
    with ok me t4 show ?thesis
      by (intro disjI2 exI[of _ me] exI[of _ rest]) simp
  qed simp_all
qed

lemma scenario_fields:
  "GetMetadata (scenario i R rec net) = Inr i"
  "GetExpectedMembers (scenario i R rec net) x = Inr R"
  "NewClient (scenario i R rec net) = None"
  "mkdirAll (scenario i R rec net) d = None"
  "createFile (scenario i R rec net) f = None"
  "dropInFile (scenario i R rec net) = ''/run/etcdmate.conf''"
  "transport (scenario i R rec net) = net"
  "newRequestErr (scenario i R rec net) url = None"
  by (simp_all add: scenario_def)

lemma scenario_probe_A:
  assumes "net = clusterUp \<or> net = clusterRejecting \<or> net = clusterLosingRemovals"
  shows "FindHealthyMember (scenario i R rec net) (memberA # ms) [] = (Inr memberA, [probeEvent memberA])"
  using assms
  by (auto simp: scenario_def memberA_def probeEvent_def probeRequest_def indexString_def
        clusterUp_def clusterRejecting_def clusterLosingRemovals_def)

lemma scenario_list_A:
  assumes "net = clusterUp \<or> net = clusterRejecting \<or> net = clusterLosingRemovals"
  shows "ListMembers (scenario i R rec net) memberA [probeEvent memberA]
       = (Inr (map toMember rec), [probeEvent memberA, Http (listRequest memberA)])"
  using assms
  by (auto simp: ListMembers_eq scenario_def memberA_def listRequest_def indexMembers_def
        clusterUp_def clusterRejecting_def clusterLosingRemovals_def)

lemma scenario_run:
  assumes "net = clusterUp \<or> net = clusterRejecting \<or> net = clusterLosingRemovals"
  shows "main (scenario i (memberA # ms) rec net) =
     (case RemoveStaleMembers (scenario i (memberA # ms) rec net) memberA (memberA # ms)
             (map toMember rec) [probeEvent memberA, Http (listRequest memberA)] of
        (Inl a, t3) \<Rightarrow> (Inl a, t3)
      | (Inr u, t3) \<Rightarrow>
          (case GetMyself (memberA # ms) i of
             Inl a \<Rightarrow> (Inl a, t3)
           | Inr myself \<Rightarrow>
               (case MaybeAddMyself (scenario i (memberA # ms) rec net) memberA (map toMember rec) myself t3 of
                  (Inl a, t4) \<Rightarrow> (Inl a, t4)
                | (Inr u, t4) \<Rightarrow> WriteDropIn (scenario i (memberA # ms) rec net) (memberA # ms) ''existing'' t4)))"
  by (rule main_reconcile[OF scenario_fields(1) scenario_fields(2) scenario_fields(3)
        scenario_probe_A[OF assms] scenario_list_A[OF assms]])

lemma nets:
  "clusterUp = clusterUp \<or> clusterUp = clusterRejecting \<or> clusterUp = clusterLosingRemovals"
  "clusterRejecting = clusterUp \<or> clusterRejecting = clusterRejecting
     \<or> clusterRejecting = clusterLosingRemovals"
  "clusterLosingRemovals = clusterUp \<or> clusterLosingRemovals = clusterRejecting
     \<or> clusterLosingRemovals = clusterLosingRemovals"
  by simp_all

lemmas run_simps =
  scenario_fields Expected_iff RemoveMember_eq AddMember_eq MaybeAddMyself_eq WriteDropIn_eq
  GetMyself_find removeRequest_def addRequest_def toMember_def firstOrEmpty_def
  memberA_def memberB_def recordedA_def recordedB_def recordedC_def joiningD_def movedA_def
  probeEvent_def probeRequest_def listRequest_def
  clusterUp_def clusterDown_def clusterRejecting_def clusterLosingRemovals_def

lemma main_projections:
  assumes "GetMetadata e = Inr insId" "GetExpectedMembers e insId = Inr R" "NewClient e = None"
    and "FindHealthyMember e R [] = (Inr hm, t1)" "ListMembers e hm t1 = (Inr A, t2)"
    and "RemoveStaleMembers e hm R A t2 = (r3, t3)"
  shows "removeCalls (snd (main e)) = removeCalls t3"
    and "addCalls (snd (main e)) = []
         \<or> (\<exists>me. r3 = Inr () \<and> find (\<lambda>m. Name m = insId) R = Some me \<and> Name me \<notin> Name ` set A
               \<and> addCalls (snd (main e)) = [(hm, me)])"
    and "set (mutations (snd (main e))) \<subseteq> set (mutations t3)
         \<or> (\<exists>me. r3 = Inr () \<and> find (\<lambda>m. Name m = insId) R = Some me \<and> Name me \<notin> Name ` set A
               \<and> set (mutations (snd (main e))) \<subseteq> insert (addRequest hm me) (set (mutations t3)))"
proof -
  note q = RemoveStaleMembers_quiet[OF assms(6)] quiet_start[OF assms(4,5)]
  from main_shape[OF assms]
  show "removeCalls (snd (main e)) = removeCalls t3"
    by (elim disjE exE conjE) (auto split: if_splits)
  from main_shape[OF assms] q
  show "addCalls (snd (main e)) = []
         \<or> (\<exists>me. r3 = Inr () \<and> find (\<lambda>m. Name m = insId) R = Some me \<and> Name me \<notin> Name ` set A
               \<and> addCalls (snd (main e)) = [(hm, me)])"
    by (elim disjE exE conjE) (auto split: if_splits)
  from main_shape[OF assms]
  show "set (mutations (snd (main e))) \<subseteq> set (mutations t3)
         \<or> (\<exists>me. r3 = Inr () \<and> find (\<lambda>m. Name m = insId) R = Some me \<and> Name me \<notin> Name ` set A
               \<and> set (mutations (snd (main e))) \<subseteq> insert (addRequest hm me) (set (mutations t3)))"
    by (elim disjE exE conjE) (auto simp: addRequest_def split: if_splits)
qed

lemma pruned_prefix:
  assumes "RemoveStaleMembers e hm R A t = (r, t')" "removeCalls t = []"
  shows "prefix (removeCalls t') (map (Pair hm) (stale R A))"
proof (cases r)
  case (Inl a)
  with assms RemoveStaleMembers_aborted[of e hm R A t a t']
  obtain k where "removeCalls t' = map (Pair hm) (take (Suc k) (stale R A))" by auto
  then show ?thesis by (simp add: take_map[symmetric] take_is_prefix)
next
  case (Inr u)
  with assms RemoveStaleMembers_done[of e hm R A t u t'] show ?thesis by simp
qed

lemma writeNewAndExit_ok:
  assumes "mkdirAll e (pathDir e (dropInFile e)) = None" "createFile e (dropInFile e) = None"
  shows "writeNewAndExit e R t = (Inl (Exit 0), t @ [FileWritten (dropInFile e) (directive R ''new'')])"
  using assms by (simp add: writeNewAndExit_def WriteDropIn_eq)

lemma main_files:
  assumes "GetMetadata e = Inr insId" "GetExpectedMembers e insId = Inr R" "NewClient e = None"
    and "FindHealthyMember e R [] = (Inr hm, t1)" "ListMembers e hm t1 = (Inr A, t2)"
  shows "(fst (main e) = Inr ()
            \<and> filesWritten (snd (main e)) = [(dropInFile e, directive R ''existing'')])
         \<or> ((\<exists>err. fst (main e) = Inl (Fatal err) \<or> fst (main e) = Inl (Panic err))
            \<and> filesWritten (snd (main e)) = [])"
proof -
  note q2 = quiet_start[OF assms(4,5)]
  obtain r3 t3 where rsm: "RemoveStaleMembers e hm R A t2 = (r3, t3)"
    by (cases "RemoveStaleMembers e hm R A t2")
  note q3 = RemoveStaleMembers_quiet[OF rsm]
  from reconcile_cases[OF assms rsm] show ?thesis
  proof (elim disjE exE conjE)
    fix err assume "r3 = Inl (Fatal err)" "main e = (Inl (Fatal err), t3)"
    with q2 q3 show ?thesis by auto
  next
    assume "main e = (Inl (ConfigurationError insId), t3)"
    with q2 q3 show ?thesis by (auto simp: ConfigurationError_def)
  next
    fix me
    assume m: "main e = (case MaybeAddMyself e hm A me t3 of
                            (Inl a, t4) \<Rightarrow> (Inl a, t4)
                          | (Inr u, t4) \<Rightarrow> WriteDropIn e R ''existing'' t4)"
    obtain r4 t4 where mam: "MaybeAddMyself e hm A me t3 = (r4, t4)"
      by (cases "MaybeAddMyself e hm A me t3")
    obtain r5 t5 where w: "WriteDropIn e R ''existing'' t4 = (r5, t5)"
      by (cases "WriteDropIn e R ''existing'' t4")
    from MaybeAddMyself_cases[OF mam] q2 q3 have f4: "filesWritten t4 = []" by auto
    from MaybeAddMyself_cases[OF mam] have "r4 = Inr () \<or> (\<exists>err. r4 = Inl (Fatal err))" by auto
    then show ?thesis
    proof
      assume "r4 = Inr ()"
      with m mam w have "main e = (r5, t5)" by simp
      with WriteDropIn_cases[OF w] f4 show ?thesis by auto
    next
      assume "\<exists>err. r4 = Inl (Fatal err)"
      then obtain err where "r4 = Inl (Fatal err)" ..
      with m mam have "main e = (Inl (Fatal err), t4)" by simp
      with f4 show ?thesis by auto
    qed
  qed
qed

lemma main_files_all:
  assumes "GetMetadata e = Inr insId" "GetExpectedMembers e insId = Inr R"
  shows "(fst (main e) = Inr ()
            \<and> filesWritten (snd (main e)) = [(dropInFile e, directive R ''existing'')])
         \<or> (fst (main e) = Inl (Exit 0)
            \<and> filesWritten (snd (main e)) = [(dropInFile e, directive R ''new'')])
         \<or> ((\<exists>err. fst (main e) = Inl (Fatal err) \<or> fst (main e) = Inl (Panic err))
            \<and> filesWritten (snd (main e)) = [])"
proof (cases "NewClient e")
  case (Some err)
  with assms have "main e = (Inl (Fatal err), [])" by (simp add: main_def)
  then show ?thesis by auto
next
  case None
  have degrade: ?thesis if "main e = writeNewAndExit e R t" "filesWritten t = []" for t
  proof -
    obtain r t' where w: "writeNewAndExit e R t = (r, t')" by (cases "writeNewAndExit e R t")
    from writeNewAndExit_cases[OF w] that w show ?thesis by auto
  qed
  obtain r1 t1 where fhm: "FindHealthyMember e R [] = (r1, t1)" by (cases "FindHealthyMember e R []")
  show ?thesis
  proof (cases r1)
    case (Inl err)
    with fhm have "main e = writeNewAndExit e R t1"
      using main_degrade[OF assms None, of err t1] by simp
    with FindHealthyMember_quiet(3)[OF fhm] show ?thesis by (intro degrade) simp_all
  next
    case (Inr hm)
    obtain r2 t2 where lm: "ListMembers e hm t1 = (r2, t2)" by (cases "ListMembers e hm t1")
    note q2 = quiet_start[OF fhm[unfolded Inr] lm]
    show ?thesis
    proof (cases r2)
      case (Inl err)
      with fhm Inr lm have "main e = writeNewAndExit e R t2"
        using main_degrade[OF assms None, of err t2 hm t1] by simp
      with q2 show ?thesis by (intro degrade) simp_all
    next
      case A: (Inr A)
      from main_files[OF assms None fhm[unfolded Inr] lm[unfolded A]] show ?thesis by blast
    qed
  qed
qed

lemma pruneTrace_simps [simp]:
  "pruneTrace hm [] = []"
  "pruneTrace hm (rm # rms) = RemoveMemberCall hm rm # Http (removeRequest hm rm) # pruneTrace hm rms"
  by (simp_all add: pruneTrace_def)

lemma pruneTrace_calls [simp]:
  "removeCalls (pruneTrace hm rms) = map (Pair hm) rms"
  "addCalls (pruneTrace hm rms) = []"
  "filesWritten (pruneTrace hm rms) = []"
  by (induction rms) simp_all

lemma RemoveMember_answered:
  "removalAnswered e hm t rm \<Longrightarrow>
     RemoveMember e hm rm t = (None, t @ [RemoveMemberCall hm rm, Http (removeRequest hm rm)])"
  by (auto simp: removalAnswered_def RemoveMember_eq split: option.splits response.splits)

lemma RemoveMember_unanswered:
  "\<not> removalAnswered e hm t rm \<Longrightarrow> \<exists>err t'. RemoveMember e hm rm t = (Some err, t')"
  by (auto simp: removalAnswered_def RemoveMember_eq split: option.splits response.splits)

lemma RemoveStaleMembers_stale:
  "RemoveStaleMembers e hm R A t = RemoveStaleMembers e hm R (stale R A) t"
proof (induction A arbitrary: t)
  case Nil
  then show ?case by (simp add: stale_def)
next
  case (Cons m A)
  show ?case
  proof (cases "Expected R m")
    case True
    with Cons show ?thesis by (simp add: stale_Cons)
  next
    case False
    with Cons show ?thesis by (simp add: stale_Cons split: prod.splits option.splits)
  qed
qed

lemma stale_not_Expected: "rm \<in> set (stale R A) \<Longrightarrow> \<not> Expected R rm"
  by (simp add: stale_def Expected_iff)

lemma RemoveStaleMembers_all_answered:
  assumes "\<forall>rm \<in> set rms. \<not> Expected R rm"
    and "\<forall>k < length rms. removalAnswered e hm (t @ pruneTrace hm (take k rms)) (rms ! k)"
  shows "RemoveStaleMembers e hm R rms t = (Inr (), t @ pruneTrace hm rms)"
  using assms
proof (induction rms arbitrary: t)
  case Nil
  then show ?case by simp
next
  case (Cons rm rms)
  from Cons.prems(2)[rule_format, of 0] have first: "removalAnswered e hm t rm" by simp
  have rest: "\<forall>k < length rms.
      removalAnswered e hm ((t @ [RemoveMemberCall hm rm, Http (removeRequest hm rm)]) @ pruneTrace hm (take k rms)) (rms ! k)"
  proof (intro allI impI)
    fix k assume "k < length rms"
    with Cons.prems(2)[rule_format, of "Suc k"]
    show "removalAnswered e hm ((t @ [RemoveMemberCall hm rm, Http (removeRequest hm rm)]) @ pruneTrace hm (take k rms)) (rms ! k)"
      by simp
  qed
  from Cons.prems(1) have ne: "\<not> Expected R rm" "\<forall>rm \<in> set rms. \<not> Expected R rm" by simp_all
  from Cons.IH[OF ne(2) rest] RemoveMember_answered[OF first] ne(1) show ?case by simp
qed

lemma RemoveStaleMembers_first_unanswered:
  assumes "\<forall>rm \<in> set rms. \<not> Expected R rm" "k < length rms"
    and "\<forall>j < k. removalAnswered e hm (t @ pruneTrace hm (take j rms)) (rms ! j)"
    and "\<not> removalAnswered e hm (t @ pruneTrace hm (take k rms)) (rms ! k)"
  shows "\<exists>err t'. RemoveStaleMembers e hm R rms t = (Inl (Fatal err), t')
           \<and> RemoveMember e hm (rms ! k) (t @ pruneTrace hm (take k rms)) = (Some err, t')"
proof -
  have split: "rms = take k rms @ (rms ! k) # drop (Suc k) rms"
    using assms(2) by (simp add: id_take_nth_drop)
  have "\<forall>rm \<in> set (take k rms). \<not> Expected R rm"
    using assms(1) by (auto dest: in_set_takeD)
  moreover have "\<forall>j < length (take k rms).
      removalAnswered e hm (t @ pruneTrace hm (take j (take k rms))) (take k rms ! j)"
    using assms(2,3) by (simp add: min_def)
  ultimately have pre: "RemoveStaleMembers e hm R (take k rms) t = (Inr (), t @ pruneTrace hm (take k rms))"
    by (rule RemoveStaleMembers_all_answered)
  from RemoveMember_unanswered[OF assms(4)] obtain err t'
    where rm: "RemoveMember e hm (rms ! k) (t @ pruneTrace hm (take k rms)) = (Some err, t')" by blast
  have ne: "\<not> Expected R (rms ! k)" using assms(1,2) by simp
  have "RemoveStaleMembers e hm R (take k rms @ (rms ! k) # drop (Suc k) rms) t = (Inl (Fatal err), t')"
    by (rule RemoveStaleMembers_first_failure[OF pre ne rm])
  with split rm show ?thesis by metis
qed

lemma removalAnswered_iff:
  "removalAnswered e hm t rm \<longleftrightarrow> fst (RemoveMember e hm rm t) = None"
  by (auto simp: removalAnswered_def RemoveMember_eq split: option.splits response.splits)

lemma listing_nets_probe_A:
  assumes "net = clusterListingLost \<or> net = clusterListingBroken"
  shows "FindHealthyMember (scenario i R rec net) (memberA # ms) [] = (Inr memberA, [probeEvent memberA])"
  using assms
  by (auto simp: scenario_def memberA_def probeEvent_def probeRequest_def indexString_def
        clusterUp_def clusterListingLost_def clusterListingBroken_def)

lemma listing_nets:
  "clusterListingLost = clusterListingLost \<or> clusterListingLost = clusterListingBroken"
  "clusterListingBroken = clusterListingLost \<or> clusterListingBroken = clusterListingBroken"
  by simp_all

section \<open>The claims\<close>

subsection \<open>C1: a converged cluster is left alone\<close>

text \<open>
  C1. Let the run get past its start-up steps, find a healthy member \<open>hm\<close> and list
  the actual roster \<open>A\<close>. If \<open>A\<close> has the names of the expected roster \<open>R\<close>,
  member for member, and the local node's name is among them, then the run calls
  neither \<^verbatim>\<open>RemoveMember\<close> nor \<^verbatim>\<open>AddMember\<close>, sends no request other than the
  probes and the listing, and (the drop-in directory and file being creatable) returns
  after writing the directive with mode \<^verbatim>\<open>existing\<close> and the \<^verbatim>\<open>name=peerURL\<close> pairs
  of \<open>R\<close> in the order of \<open>R\<close>.
\<close>

theorem converged_cluster_is_left_alone:
  assumes "GetMetadata e = Inr insId" "GetExpectedMembers e insId = Inr R" "NewClient e = None"
    and "FindHealthyMember e R [] = (Inr hm, t1)" "ListMembers e hm t1 = (Inr A, t2)"
    and "map Name A = map Name R" "insId \<in> Name ` set R"
    and "mkdirAll e (pathDir e (dropInFile e)) = None" "createFile e (dropInFile e) = None"
  shows "main e = (Inr (), t2 @ [FileWritten (dropInFile e) (directive R ''existing'')])
         \<and> removeCalls (snd (main e)) = [] \<and> addCalls (snd (main e)) = []
         \<and> mutations (snd (main e)) = []
         \<and> filesWritten (snd (main e)) = [(dropInFile e, directive R ''existing'')]"
proof -
  have names: "Name ` set A = Name ` set R"
    using arg_cong[OF assms(6), of set] by simp
  then have "stale R A = []" by (auto simp: stale_def filter_empty_conv)
  then have rsm: "RemoveStaleMembers e hm R A t2 = (Inr (), t2)"
    by (rule RemoveStaleMembers_nothing_stale)
  from assms(7) obtain me where me: "find (\<lambda>m. Name m = insId) R = Some me"
    by (cases "find (\<lambda>m. Name m = insId) R") (auto simp: find_self_None)
  with names assms(7) have "Name me \<in> Name ` set A"
    using find_self_Some[OF me] by simp
  then have "MaybeAddMyself e hm A me t2 = (Inr (), t2)" by (simp add: MaybeAddMyself_eq)
  with main_reconcile[OF assms(1-5)] rsm me assms(8,9)
  have m: "main e = (Inr (), t2 @ [FileWritten (dropInFile e) (directive R ''existing'')])"
    by (simp add: GetMyself_find WriteDropIn_eq)
  with quiet_start[OF assms(4,5)] show ?thesis by simp
qed

text \<open>
  The run on \<open>B\<close>, with \<open>A\<close> and \<open>B\<close> expected and both recorded by the cluster
  (\<open>A\<close> under other URLs and another id).
\<close>

theorem converged_cluster_is_left_alone_witness:
  "main (scenario ''B'' [memberA, memberB] [movedA, recordedB] clusterUp)
     = (Inr (), [probeEvent memberA, Http (listRequest memberA),
                 FileWritten ''/run/etcdmate.conf'' (directive [memberA, memberB] ''existing'')])
   \<and> removeCalls (snd (main (scenario ''B'' [memberA, memberB] [movedA, recordedB] clusterUp))) = []
   \<and> addCalls (snd (main (scenario ''B'' [memberA, memberB] [movedA, recordedB] clusterUp))) = []"
proof -
  let ?e = "scenario ''B'' [memberA, memberB] [movedA, recordedB] clusterUp"
  have 1: "GetMetadata ?e = Inr ''B''" and 2: "GetExpectedMembers ?e ''B'' = Inr [memberA, memberB]"
    and 3: "NewClient ?e = None"
    and 8: "mkdirAll ?e (pathDir ?e (dropInFile ?e)) = None" and 9: "createFile ?e (dropInFile ?e) = None"
    and f: "dropInFile ?e = ''/run/etcdmate.conf''"
    by (simp_all add: scenario_def)
  have 4: "FindHealthyMember ?e [memberA, memberB] [] = (Inr memberA, [probeEvent memberA])"
    by (simp add: scenario_defs probeEvent_def probeRequest_def indexString_def)
  have 5: "ListMembers ?e memberA [probeEvent memberA]
             = (Inr [toMember movedA, toMember recordedB], [probeEvent memberA, Http (listRequest memberA)])"
    by (simp add: ListMembers_eq scenario_defs listRequest_def indexMembers_def)
  have 6: "map Name [toMember movedA, toMember recordedB] = map Name [memberA, memberB]"
    by (simp add: toMember_def scenario_defs)
  have 7: "''B'' \<in> Name ` set [memberA, memberB]" by (simp add: scenario_defs)
  from converged_cluster_is_left_alone[OF 1 2 3 4 5 6 7 8 9] f show ?thesis
    by (simp add: probeEvent_def)
qed

subsection \<open>C2: a node that is not in the expected roster\<close>

text \<open>
  C2, as the code has it. \<^verbatim>\<open>main\<close> looks the local node up after
  \<^verbatim>\<open>RemoveStaleMembers\<close> has run. When the local node's name is not in the expected
  roster and an actual roster has been listed, the run calls \<^verbatim>\<open>AddMember\<close> never and
  writes no directive; if every removal of a stale member succeeds, the run ends with
  the configuration error after exactly the removals of the stale members; a removal
  that fails ends the run with that error instead; and when the actual roster has no
  stale member the run ends with the configuration error without any mutation.
\<close>

theorem missing_self_fails_after_pruning:
  assumes "GetMetadata e = Inr insId" "GetExpectedMembers e insId = Inr R" "NewClient e = None"
    and "FindHealthyMember e R [] = (Inr hm, t1)" "ListMembers e hm t1 = (Inr A, t2)"
    and "insId \<notin> Name ` set R"
  shows "addCalls (snd (main e)) = [] \<and> filesWritten (snd (main e)) = []
         \<and> (\<forall>t3. RemoveStaleMembers e hm R A t2 = (Inr (), t3) \<longrightarrow>
               main e = (Inl (ConfigurationError insId), t3)
               \<and> removeCalls t3 = map (Pair hm) (stale R A))
         \<and> (\<forall>err t3. RemoveStaleMembers e hm R A t2 = (Inl (Fatal err), t3) \<longrightarrow>
               main e = (Inl (Fatal err), t3))
         \<and> (stale R A = [] \<longrightarrow>
               main e = (Inl (ConfigurationError insId), t2) \<and> mutations (snd (main e)) = []
               \<and> removeCalls (snd (main e)) = [])"
proof -
  note q2 = quiet_start[OF assms(4,5)]
  have none: "find (\<lambda>m. Name m = insId) R = None" using assms(6) by (simp add: find_self_None)
  have ok: "main e = (Inl (ConfigurationError insId), t3) \<and> removeCalls t3 = map (Pair hm) (stale R A)"
    if "RemoveStaleMembers e hm R A t2 = (Inr (), t3)" for t3
    using reconcile_cases[OF assms(1-5) that] RemoveStaleMembers_done[OF that] none q2 by simp
  have failed: "main e = (Inl (Fatal err), t3)"
    if "RemoveStaleMembers e hm R A t2 = (Inl (Fatal err), t3)" for err t3
    using reconcile_cases[OF assms(1-5) that] by simp
  obtain r3 t3 where rsm: "RemoveStaleMembers e hm R A t2 = (r3, t3)"
    by (cases "RemoveStaleMembers e hm R A t2")
  have "snd (main e) = t3" using main_shape[OF assms(1-5) rsm] none by auto
  with RemoveStaleMembers_quiet[OF rsm] q2
  have "addCalls (snd (main e)) = [] \<and> filesWritten (snd (main e)) = []" by simp
  moreover have "main e = (Inl (ConfigurationError insId), t2) \<and> mutations (snd (main e)) = []
               \<and> removeCalls (snd (main e)) = []" if "stale R A = []"
    using ok[OF RemoveStaleMembers_nothing_stale[OF that]] q2 by simp
  ultimately show ?thesis using ok failed by blast
qed

text \<open>
  The run on \<open>Z\<close>, with \<open>A\<close> and \<open>B\<close> expected and recorded: nothing is stale, and
  the run ends with the configuration error right after the listing.
\<close>

theorem missing_self_fails_after_pruning_witness:
  "''Z'' \<notin> Name ` set [memberA, memberB]
   \<and> addCalls (snd (main (scenario ''Z'' [memberA, memberB] [recordedA, recordedB] clusterUp))) = []
   \<and> filesWritten (snd (main (scenario ''Z'' [memberA, memberB] [recordedA, recordedB] clusterUp))) = []
   \<and> stale [memberA, memberB] (map toMember [recordedA, recordedB]) = []
   \<and> main (scenario ''Z'' [memberA, memberB] [recordedA, recordedB] clusterUp)
       = (Inl (ConfigurationError ''Z''), [probeEvent memberA, Http (listRequest memberA)])"
proof -
  let ?e = "scenario ''Z'' [memberA, memberB] [recordedA, recordedB] clusterUp"
  have 6: "''Z'' \<notin> Name ` set [memberA, memberB]" by (simp add: memberA_def memberB_def)
  have s: "stale [memberA, memberB] (map toMember [recordedA, recordedB]) = []"
    by (simp add: stale_def toMember_def memberA_def memberB_def recordedA_def recordedB_def)
  note run = missing_self_fails_after_pruning
    [of ?e "''Z''" "[memberA, memberB]" memberA "[probeEvent memberA]"
        "map toMember [recordedA, recordedB]" "[probeEvent memberA, Http (listRequest memberA)]",
     OF scenario_fields(1) scenario_fields(2) scenario_fields(3)
        scenario_probe_A[OF nets(1)] scenario_list_A[OF nets(1)] 6]
  from run[THEN conjunct1] run[THEN conjunct2, THEN conjunct1]
    run[THEN conjunct2, THEN conjunct2, THEN conjunct2, THEN conjunct2, rule_format, OF s] 6 s
  show ?thesis by simp
qed

text \<open>
  C2 as stated fails: on \<open>Z\<close>, with \<open>A\<close> and \<open>B\<close> expected and \<open>A\<close>, \<open>B\<close>,
  \<open>C\<close> recorded, the removal of \<open>C\<close> is called and its \<^verbatim>\<open>DELETE\<close> request is
  sent before the run ends with the configuration error.
\<close>

theorem missing_self_is_found_after_a_removal:
  "''Z'' \<notin> Name ` set [memberA, memberB]
   \<and> main (scenario ''Z'' [memberA, memberB] [recordedA, recordedB, recordedC] clusterUp)
     = (Inl (ConfigurationError ''Z''),
        [probeEvent memberA, Http (listRequest memberA),
         RemoveMemberCall memberA (toMember recordedC),
         Http (DELETE ''http://a:2379/v2/members/3'')])"
  unfolding scenario_run[OF nets(1)]
  by (simp add: run_simps ConfigurationError_def)

subsection \<open>C3: stale members are pruned in the actual roster's order\<close>

text \<open>
  C3. Let the run find a healthy member \<open>hm\<close> and list the actual roster \<open>A\<close>. The
  calls of \<^verbatim>\<open>RemoveMember\<close> that the run makes are an initial part of the list of the
  stale members of \<open>A\<close> (those whose name no expected member has), in the order of
  \<open>A\<close>, each through \<open>hm\<close>; so no call is made for a member whose name is expected.
  Each call sends at most one request, the \<^verbatim>\<open>DELETE\<close> of the member's id, and it
  returns no error exactly when the environment answers that removal. If the
  environment answers the removal of every stale member, each at the moment it is
  made, then the pruning goes through all of them, and the calls of the run are exactly
  the list of the stale members: one call for each, in order. If the removal of the
  stale member number \<open>k\<close> is the first that is not answered, then the run ends with
  the error of that removal as a fatal error, right after that call: the calls are
  those of the first \<open>k + 1\<close> stale members, the later ones are not tried, nothing is
  added and no directive is written.
\<close>

theorem stale_members_are_pruned_in_order:
  assumes "GetMetadata e = Inr insId" "GetExpectedMembers e insId = Inr R" "NewClient e = None"
    and "FindHealthyMember e R [] = (Inr hm, t1)" "ListMembers e hm t1 = (Inr A, t2)"
  shows "prefix (removeCalls (snd (main e))) (map (Pair hm) (stale R A))
     \<and> (\<forall>(h, rm) \<in> set (removeCalls (snd (main e))).
           h = hm \<and> rm \<in> set A \<and> Name rm \<notin> Name ` set R)
     \<and> (\<forall>t3. RemoveStaleMembers e hm R A t2 = (Inr (), t3) \<longrightarrow>
           removeCalls (snd (main e)) = map (Pair hm) (stale R A))
     \<and> (\<forall>pre m post t3 err t4.
           A = pre @ m # post \<and> RemoveStaleMembers e hm R pre t2 = (Inr (), t3)
           \<and> Name m \<notin> Name ` set R \<and> RemoveMember e hm m t3 = (Some err, t4) \<longrightarrow>
           main e = (Inl (Fatal err), t4)
           \<and> removeCalls t4 = map (Pair hm) (stale R pre @ [m])
           \<and> addCalls t4 = [] \<and> filesWritten t4 = [])
     \<and> (\<forall>rm t. snd (RemoveMember e hm rm t) = t @ [RemoveMemberCall hm rm]
           \<or> snd (RemoveMember e hm rm t)
               = t @ [RemoveMemberCall hm rm, Http (DELETE (ClientURL hm @ ''/v2/members/'' @ ID rm))])
     \<and> (\<forall>rm t. removalAnswered e hm t rm \<longleftrightarrow> fst (RemoveMember e hm rm t) = None)
     \<and> ((\<forall>k < length (stale R A).
            removalAnswered e hm (t2 @ pruneTrace hm (take k (stale R A))) (stale R A ! k)) \<longrightarrow>
          RemoveStaleMembers e hm R A t2 = (Inr (), t2 @ pruneTrace hm (stale R A))
          \<and> removeCalls (snd (main e)) = map (Pair hm) (stale R A)
          \<and> prefix (t2 @ pruneTrace hm (stale R A)) (snd (main e)))
     \<and> (\<forall>k < length (stale R A).
            (\<forall>j < k. removalAnswered e hm (t2 @ pruneTrace hm (take j (stale R A))) (stale R A ! j))
            \<and> \<not> removalAnswered e hm (t2 @ pruneTrace hm (take k (stale R A))) (stale R A ! k) \<longrightarrow>
            (\<exists>err. main e = (Inl (Fatal err),
                       snd (RemoveMember e hm (stale R A ! k) (t2 @ pruneTrace hm (take k (stale R A)))))
                   \<and> fst (RemoveMember e hm (stale R A ! k) (t2 @ pruneTrace hm (take k (stale R A))))
                       = Some err)
            \<and> removeCalls (snd (main e)) = map (Pair hm) (take (Suc k) (stale R A))
            \<and> addCalls (snd (main e)) = [] \<and> filesWritten (snd (main e)) = [])"
proof -
  note q2 = quiet_start[OF assms(4,5)]
  obtain r3 t3 where rsm: "RemoveStaleMembers e hm R A t2 = (r3, t3)"
    by (cases "RemoveStaleMembers e hm R A t2")
  have calls: "removeCalls (snd (main e)) = removeCalls t3"
    by (rule main_projections(1)[OF assms rsm])
  have pre: "prefix (removeCalls (snd (main e))) (map (Pair hm) (stale R A))"
    unfolding calls by (rule pruned_prefix[OF rsm q2(1)])
  have only_stale: "\<forall>(h, rm) \<in> set (removeCalls (snd (main e))).
           h = hm \<and> rm \<in> set A \<and> Name rm \<notin> Name ` set R"
    using set_mono_prefix[OF pre] by (auto simp: stale_def)
  have complete: "removeCalls (snd (main e)) = map (Pair hm) (stale R A)"
    if "RemoveStaleMembers e hm R A t2 = (Inr (), t3')" for t3'
    using main_projections(1)[OF assms that] RemoveStaleMembers_done[OF that] q2 by simp
  have abort: "main e = (Inl (Fatal err), t4)
           \<and> removeCalls t4 = map (Pair hm) (stale R pre @ [m])
           \<and> addCalls t4 = [] \<and> filesWritten t4 = []"
    if "A = pre @ m # post" "RemoveStaleMembers e hm R pre t2 = (Inr (), t3')"
      "Name m \<notin> Name ` set R" "RemoveMember e hm m t3' = (Some err, t4)"
    for pre m post t3' err t4
  proof -
    from that(3) have ne: "\<not> Expected R m" by (simp add: Expected_iff)
    have "RemoveStaleMembers e hm R A t2 = (Inl (Fatal err), t4)"
      unfolding that(1) by (rule RemoveStaleMembers_first_failure[OF that(2) ne that(4)])
    from reconcile_cases[OF assms this] have "main e = (Inl (Fatal err), t4)" by simp
    with RemoveStaleMembers_done[OF that(2)] RemoveMember_calls[OF that(4)] q2
    show ?thesis by simp
  qed
  have shape: "snd (RemoveMember e hm rm t) = t @ [RemoveMemberCall hm rm]
           \<or> snd (RemoveMember e hm rm t)
               = t @ [RemoveMemberCall hm rm, Http (DELETE (ClientURL hm @ ''/v2/members/'' @ ID rm))]"
    for rm t
    by (simp add: RemoveMember_eq removeRequest_def split: option.splits)
  have answered: "removalAnswered e hm t rm \<longleftrightarrow> fst (RemoveMember e hm rm t) = None" for rm t
    by (rule removalAnswered_iff)
  have ne: "\<forall>rm \<in> set (stale R A). \<not> Expected R rm" by (simp add: stale_not_Expected)
  have all: "RemoveStaleMembers e hm R A t2 = (Inr (), t2 @ pruneTrace hm (stale R A))
          \<and> removeCalls (snd (main e)) = map (Pair hm) (stale R A)
          \<and> prefix (t2 @ pruneTrace hm (stale R A)) (snd (main e))"
    if h: "\<forall>k < length (stale R A).
            removalAnswered e hm (t2 @ pruneTrace hm (take k (stale R A))) (stale R A ! k)"
  proof -
    have r: "RemoveStaleMembers e hm R A t2 = (Inr (), t2 @ pruneTrace hm (stale R A))"
      unfolding RemoveStaleMembers_stale[of e hm R A]
      by (rule RemoveStaleMembers_all_answered[OF ne h])
    from main_shape[OF assms r]
    have "prefix (t2 @ pruneTrace hm (stale R A)) (snd (main e))"
      by (elim disjE exE conjE) (auto split: if_splits)
    with r complete[OF r] show ?thesis by simp
  qed
  have first: "(\<exists>err. main e = (Inl (Fatal err),
                       snd (RemoveMember e hm (stale R A ! k) (t2 @ pruneTrace hm (take k (stale R A)))))
                   \<and> fst (RemoveMember e hm (stale R A ! k) (t2 @ pruneTrace hm (take k (stale R A))))
                       = Some err)
            \<and> removeCalls (snd (main e)) = map (Pair hm) (take (Suc k) (stale R A))
            \<and> addCalls (snd (main e)) = [] \<and> filesWritten (snd (main e)) = []"
    if k: "k < length (stale R A)"
      and h: "(\<forall>j < k. removalAnswered e hm (t2 @ pruneTrace hm (take j (stale R A))) (stale R A ! j))
            \<and> \<not> removalAnswered e hm (t2 @ pruneTrace hm (take k (stale R A))) (stale R A ! k)"
    for k
  proof -
    from h have h1: "\<forall>j < k. removalAnswered e hm (t2 @ pruneTrace hm (take j (stale R A))) (stale R A ! j)"
      and h2: "\<not> removalAnswered e hm (t2 @ pruneTrace hm (take k (stale R A))) (stale R A ! k)"
      by simp_all
    from RemoveStaleMembers_first_unanswered[OF ne k h1 h2]
    obtain err t' where r: "RemoveStaleMembers e hm R A t2 = (Inl (Fatal err), t')"
      and rm: "RemoveMember e hm (stale R A ! k) (t2 @ pruneTrace hm (take k (stale R A))) = (Some err, t')"
      unfolding RemoveStaleMembers_stale[of e hm R A, symmetric] by blast
    from reconcile_cases[OF assms r] have m: "main e = (Inl (Fatal err), t')" by simp
    from RemoveMember_calls[OF rm] q2 k
    have "removeCalls t' = map (Pair hm) (take (Suc k) (stale R A))"
      "addCalls t' = []" "filesWritten t' = []"
      by (simp_all add: take_Suc_conv_app_nth)
    with m rm show ?thesis by simp
  qed
  from pre only_stale complete abort shape answered all first show ?thesis by blast
qed

text \<open>
  With \<open>A\<close> and \<open>B\<close> expected and \<open>C\<close>, \<open>A\<close>, \<open>D\<close> recorded, both removals are
  answered by \<open>clusterUp\<close> and the run removes \<open>C\<close> and then \<open>D\<close>; with \<open>A\<close>,
  \<open>B\<close>, \<open>C\<close> recorded the one removal is that of \<open>C\<close>. With a transport that
  fails on removals, the run ends with the error of the removal of \<open>C\<close>, and \<open>D\<close>
  is not tried.
\<close>

theorem stale_members_are_pruned_in_order_witness:
  "stale [memberA, memberB] (map toMember [recordedC, recordedA, joiningD])
     = [toMember recordedC, toMember joiningD]
   \<and> removalAnswered (scenario ''A'' [memberA, memberB] [recordedC, recordedA, joiningD] clusterUp) memberA
        [probeEvent memberA, Http (listRequest memberA)] (toMember recordedC)
   \<and> removalAnswered (scenario ''A'' [memberA, memberB] [recordedC, recordedA, joiningD] clusterUp) memberA
        ([probeEvent memberA, Http (listRequest memberA)] @ pruneTrace memberA [toMember recordedC])
        (toMember joiningD)
   \<and> removeCalls (snd (main (scenario ''A'' [memberA, memberB] [recordedC, recordedA, joiningD] clusterUp)))
       = [(memberA, toMember recordedC), (memberA, toMember joiningD)]
   \<and> removeCalls (snd (main (scenario ''A'' [memberA, memberB] [recordedA, recordedB, recordedC] clusterUp)))
       = [(memberA, toMember recordedC)]
   \<and> \<not> removalAnswered (scenario ''A'' [memberA, memberB] [recordedC, recordedA, joiningD] clusterLosingRemovals)
        memberA [probeEvent memberA, Http (listRequest memberA)] (toMember recordedC)
   \<and> main (scenario ''A'' [memberA, memberB] [recordedC, recordedA, joiningD] clusterLosingRemovals)
       = (Inl (Fatal ''timeout''),
          [probeEvent memberA, Http (listRequest memberA),
           RemoveMemberCall memberA (toMember recordedC), Http (removeRequest memberA (toMember recordedC))])"
proof -
  let ?R = "[memberA, memberB]"
  let ?e = "scenario ''A'' ?R [recordedA, recordedB, recordedC] clusterUp"
  let ?g = "scenario ''A'' ?R [recordedC, recordedA, joiningD] clusterUp"
  let ?f = "scenario ''A'' ?R [recordedC, recordedA, joiningD] clusterLosingRemovals"
  let ?t2 = "[probeEvent memberA, Http (listRequest memberA)]"
  let ?t3 = "?t2 @ [RemoveMemberCall memberA (toMember recordedC), Http (removeRequest memberA (toMember recordedC))]"
  have s: "stale ?R (map toMember [recordedA, recordedB, recordedC]) = [toMember recordedC]"
    by (simp add: stale_def toMember_def memberA_def memberB_def recordedA_def recordedB_def recordedC_def)
  have s2: "stale ?R (map toMember [recordedC, recordedA, joiningD]) = [toMember recordedC, toMember joiningD]"
    by (simp add: stale_def toMember_def memberA_def memberB_def recordedA_def recordedC_def joiningD_def)
  note up = stale_members_are_pruned_in_order
    [of ?e "''A''" ?R memberA "[probeEvent memberA]" "map toMember [recordedA, recordedB, recordedC]" ?t2,
     OF scenario_fields(1) scenario_fields(2) scenario_fields(3)
        scenario_probe_A[OF nets(1)] scenario_list_A[OF nets(1)]]
  have rsm: "RemoveStaleMembers ?e memberA ?R (map toMember [recordedA, recordedB, recordedC]) ?t2 = (Inr (), ?t3)"
    by (simp add: run_simps)
  from up[THEN conjunct2, THEN conjunct2, THEN conjunct1, rule_format, OF rsm] s
  have 1: "removeCalls (snd (main ?e)) = [(memberA, toMember recordedC)]" by simp
  note two = stale_members_are_pruned_in_order
    [of ?g "''A''" ?R memberA "[probeEvent memberA]" "map toMember [recordedC, recordedA, joiningD]" ?t2,
     OF scenario_fields(1) scenario_fields(2) scenario_fields(3)
        scenario_probe_A[OF nets(1)] scenario_list_A[OF nets(1)]]
  have a0: "removalAnswered ?g memberA ?t2 (toMember recordedC)"
    by (simp add: removalAnswered_def scenario_fields removeRequest_def clusterUp_def)
  have a1: "removalAnswered ?g memberA (?t2 @ pruneTrace memberA [toMember recordedC]) (toMember joiningD)"
    by (simp add: removalAnswered_def scenario_fields removeRequest_def clusterUp_def)
  have every: "\<forall>k < length (stale ?R (map toMember [recordedC, recordedA, joiningD])).
      removalAnswered ?g memberA
        (?t2 @ pruneTrace memberA (take k (stale ?R (map toMember [recordedC, recordedA, joiningD]))))
        (stale ?R (map toMember [recordedC, recordedA, joiningD]) ! k)"
    unfolding s2
  proof (intro allI impI)
    fix k assume "k < length [toMember recordedC, toMember joiningD]"
    then have "k = 0 \<or> k = 1" by auto
    then show "removalAnswered ?g memberA
        (?t2 @ pruneTrace memberA (take k [toMember recordedC, toMember joiningD]))
        ([toMember recordedC, toMember joiningD] ! k)"
      using a0 a1 by auto
  qed
  from two[THEN conjunct2, THEN conjunct2, THEN conjunct2, THEN conjunct2, THEN conjunct2,
           THEN conjunct2, THEN conjunct1, THEN mp, OF every, THEN conjunct2, THEN conjunct1] s2
  have 2: "removeCalls (snd (main ?g)) = [(memberA, toMember recordedC), (memberA, toMember joiningD)]"
    by simp
  note down = stale_members_are_pruned_in_order
    [of ?f "''A''" ?R memberA "[probeEvent memberA]" "map toMember [recordedC, recordedA, joiningD]" ?t2,
     OF scenario_fields(1) scenario_fields(2) scenario_fields(3)
        scenario_probe_A[OF nets(3)] scenario_list_A[OF nets(3)]]
  have n0: "\<not> removalAnswered ?f memberA ?t2 (toMember recordedC)"
    by (simp add: removalAnswered_def scenario_fields removeRequest_def clusterLosingRemovals_def)
  have k0: "0 < length (stale ?R (map toMember [recordedC, recordedA, joiningD]))"
    unfolding s2 by simp
  have h0: "(\<forall>j < 0. removalAnswered ?f memberA
                (?t2 @ pruneTrace memberA (take j (stale ?R (map toMember [recordedC, recordedA, joiningD]))))
                (stale ?R (map toMember [recordedC, recordedA, joiningD]) ! j))
            \<and> \<not> removalAnswered ?f memberA
                (?t2 @ pruneTrace memberA (take 0 (stale ?R (map toMember [recordedC, recordedA, joiningD]))))
                (stale ?R (map toMember [recordedC, recordedA, joiningD]) ! 0)"
    unfolding s2 using n0 by simp
  from down[THEN conjunct2, THEN conjunct2, THEN conjunct2, THEN conjunct2, THEN conjunct2,
            THEN conjunct2, THEN conjunct2, THEN spec, of 0, THEN mp, OF k0, THEN mp, OF h0, THEN conjunct1, unfolded s2]
  have 3: "main ?f = (Inl (Fatal ''timeout''), ?t3)"
    by (auto simp: run_simps)
  from s2 a0 a1 1 2 n0 3 show ?thesis by simp
qed

subsection \<open>C4: the local node is added after the pruning\<close>

text \<open>
  C4. Let the run find a healthy member \<open>hm\<close> and list the actual roster \<open>A\<close>, and
  let \<open>me\<close> be the local node's entry in the expected roster (the first member with
  the local name). If the name of \<open>me\<close> is in \<open>A\<close>, no \<^verbatim>\<open>AddMember\<close> call is
  made. If it is not, and the pruning has gone through, then the run makes exactly one
  \<^verbatim>\<open>AddMember\<close> call, for \<open>me\<close> through \<open>hm\<close>; the call comes after all the
  removals (which are those of the stale members) and sends the request carrying the
  name and the peer URL of \<open>me\<close>; no removal and no other mutation follows it; if the
  addition succeeds (and the drop-in directory and file can be created) the run then
  writes the directive with mode \<^verbatim>\<open>existing\<close> and returns; if the addition returns
  an error the run ends with it as a fatal error.
\<close>

theorem self_is_added_after_pruning:
  assumes "GetMetadata e = Inr insId" "GetExpectedMembers e insId = Inr R" "NewClient e = None"
    and "FindHealthyMember e R [] = (Inr hm, t1)" "ListMembers e hm t1 = (Inr A, t2)"
    and "find (\<lambda>m. Name m = insId) R = Some me"
  shows "me \<in> set R \<and> Name me = insId
     \<and> (Name me \<in> Name ` set A \<longrightarrow> addCalls (snd (main e)) = [])
     \<and> (\<forall>t3. Name me \<notin> Name ` set A \<and> RemoveStaleMembers e hm R A t2 = (Inr (), t3) \<longrightarrow>
           addCalls (snd (main e)) = [(hm, me)]
           \<and> removeCalls t3 = map (Pair hm) (stale R A)
           \<and> (\<exists>rest. snd (main e) = t3 @ [AddMemberCall hm me, Http (addRequest hm me)] @ rest
                 \<and> removeCalls rest = [] \<and> addCalls rest = [] \<and> mutations rest = [])
           \<and> (fst (AddMember e hm me t3) = None \<and> mkdirAll e (pathDir e (dropInFile e)) = None
                 \<and> createFile e (dropInFile e) = None \<longrightarrow>
               main e = (Inr (), t3 @ [AddMemberCall hm me, Http (addRequest hm me),
                                       FileWritten (dropInFile e) (directive R ''existing'')]))
           \<and> (\<forall>err. fst (AddMember e hm me t3) = Some err \<longrightarrow>
               main e = (Inl (Fatal err), t3 @ [AddMemberCall hm me, Http (addRequest hm me)])))"
proof -
  note q2 = quiet_start[OF assms(4,5)]
  have entry: "me \<in> set R \<and> Name me = insId" by (rule find_self_Some[OF assms(6)])
  have present: "addCalls (snd (main e)) = []" if "Name me \<in> Name ` set A"
  proof -
    obtain r3 t3 where rsm: "RemoveStaleMembers e hm R A t2 = (r3, t3)"
      by (cases "RemoveStaleMembers e hm R A t2")
    from main_projections(2)[OF assms(1-5) rsm] assms(6) that show ?thesis by auto
  qed
  have absent: "addCalls (snd (main e)) = [(hm, me)]
           \<and> removeCalls t3 = map (Pair hm) (stale R A)
           \<and> (\<exists>rest. snd (main e) = t3 @ [AddMemberCall hm me, Http (addRequest hm me)] @ rest
                 \<and> removeCalls rest = [] \<and> addCalls rest = [] \<and> mutations rest = [])
           \<and> (fst (AddMember e hm me t3) = None \<and> mkdirAll e (pathDir e (dropInFile e)) = None
                 \<and> createFile e (dropInFile e) = None \<longrightarrow>
               main e = (Inr (), t3 @ [AddMemberCall hm me, Http (addRequest hm me),
                                       FileWritten (dropInFile e) (directive R ''existing'')]))
           \<and> (\<forall>err. fst (AddMember e hm me t3) = Some err \<longrightarrow>
               main e = (Inl (Fatal err), t3 @ [AddMemberCall hm me, Http (addRequest hm me)]))"
    if nm: "Name me \<notin> Name ` set A" and rsm: "RemoveStaleMembers e hm R A t2 = (Inr (), t3)" for t3
  proof -
    note pruned = RemoveStaleMembers_done[OF rsm]
    from reconcile_cases[OF assms(1-5) rsm] assms(6)
    have m: "main e = (case MaybeAddMyself e hm A me t3 of
                            (Inl a, t4) \<Rightarrow> (Inl a, t4)
                          | (Inr u, t4) \<Rightarrow> WriteDropIn e R ''existing'' t4)"
      by simp
    obtain r4 t4 where mam: "MaybeAddMyself e hm A me t3 = (r4, t4)"
      by (cases "MaybeAddMyself e hm A me t3")
    obtain r5 t5 where w: "WriteDropIn e R ''existing'' t4 = (r5, t5)"
      by (cases "WriteDropIn e R ''existing'' t4")
    from MaybeAddMyself_cases[OF mam] nm
    have t4: "t4 = t3 @ [AddMemberCall hm me, Http (addRequest hm me)]" by auto
    have "snd (main e) = t4 \<or> snd (main e) = t4 @ [FileWritten (dropInFile e) (directive R ''existing'')]"
      using m mam w WriteDropIn_cases[OF w] by (cases r4) auto
    then obtain rest where rest: "rest = [] \<or> rest = [FileWritten (dropInFile e) (directive R ''existing'')]"
      and tr: "snd (main e) = t3 @ [AddMemberCall hm me, Http (addRequest hm me)] @ rest"
      unfolding t4 by auto
    from rest have quiet: "removeCalls rest = [] \<and> addCalls rest = [] \<and> mutations rest = []" by auto
    have 1: "addCalls (snd (main e)) = [(hm, me)]"
      using tr quiet pruned q2 by simp
    have 2: "removeCalls t3 = map (Pair hm) (stale R A)" using pruned q2 by simp
    have 3: "main e = (Inr (), t3 @ [AddMemberCall hm me, Http (addRequest hm me),
                                       FileWritten (dropInFile e) (directive R ''existing'')])"
      if "fst (AddMember e hm me t3) = None \<and> mkdirAll e (pathDir e (dropInFile e)) = None
                 \<and> createFile e (dropInFile e) = None"
      using that m nm
      by (auto simp: MaybeAddMyself_eq AddMember_eq WriteDropIn_eq split: response.splits)
    have 4: "main e = (Inl (Fatal err), t3 @ [AddMemberCall hm me, Http (addRequest hm me)])"
      if "fst (AddMember e hm me t3) = Some err" for err
      using that m nm
      by (auto simp: MaybeAddMyself_eq AddMember_eq split: response.splits)
    from 1 2 3 4 tr quiet show ?thesis by blast
  qed
  from entry present absent show ?thesis by blast
qed

text \<open>
  The run on \<open>B\<close>, with \<open>A\<close> and \<open>B\<close> expected: when \<open>A\<close> and \<open>C\<close> are
  recorded, \<open>C\<close> is removed, then \<open>B\<close> is added, then the directive is written;
  when \<open>A\<close> and \<open>B\<close> are recorded, nothing is added.
\<close>

theorem self_is_added_after_pruning_witness:
  "find (\<lambda>m. Name m = ''B'') [memberA, memberB] = Some memberB
   \<and> Name memberB \<notin> Name ` set (map toMember [recordedA, recordedC])
   \<and> main (scenario ''B'' [memberA, memberB] [recordedA, recordedC] clusterUp)
       = (Inr (),
          [probeEvent memberA, Http (listRequest memberA),
           RemoveMemberCall memberA (toMember recordedC), Http (removeRequest memberA (toMember recordedC)),
           AddMemberCall memberA memberB, Http (addRequest memberA memberB),
           FileWritten ''/run/etcdmate.conf'' (directive [memberA, memberB] ''existing'')])
   \<and> addCalls (snd (main (scenario ''B'' [memberA, memberB] [recordedA, recordedC] clusterUp)))
       = [(memberA, memberB)]
   \<and> addCalls (snd (main (scenario ''B'' [memberA, memberB] [recordedA, recordedB] clusterUp))) = []"
proof -
  let ?R = "[memberA, memberB]"
  let ?e = "scenario ''B'' ?R [recordedA, recordedC] clusterUp"
  let ?t2 = "[probeEvent memberA, Http (listRequest memberA)]"
  let ?t3 = "?t2 @ [RemoveMemberCall memberA (toMember recordedC), Http (removeRequest memberA (toMember recordedC))]"
  have me: "find (\<lambda>m. Name m = ''B'') ?R = Some memberB" by (simp add: memberA_def memberB_def)
  note joining = self_is_added_after_pruning
    [of ?e "''B''" ?R memberA "[probeEvent memberA]" "map toMember [recordedA, recordedC]" ?t2 memberB,
     OF scenario_fields(1) scenario_fields(2) scenario_fields(3)
        scenario_probe_A[OF nets(1)] scenario_list_A[OF nets(1)] me]
  note joined = self_is_added_after_pruning
    [of "scenario ''B'' ?R [recordedA, recordedB] clusterUp" "''B''" ?R memberA "[probeEvent memberA]"
        "map toMember [recordedA, recordedB]" ?t2 memberB,
     OF scenario_fields(1) scenario_fields(2) scenario_fields(3)
        scenario_probe_A[OF nets(1)] scenario_list_A[OF nets(1)] me]
  have nm: "Name memberB \<notin> Name ` set (map toMember [recordedA, recordedC])"
    by (simp add: toMember_def memberB_def recordedA_def recordedC_def)
  have rsm: "RemoveStaleMembers ?e memberA ?R (map toMember [recordedA, recordedC]) ?t2 = (Inr (), ?t3)"
    by (simp add: run_simps)
  have ok: "fst (AddMember ?e memberA memberB ?t3) = None \<and> mkdirAll ?e (pathDir ?e (dropInFile ?e)) = None
                 \<and> createFile ?e (dropInFile ?e) = None"
    by (simp add: run_simps)
  note step = joining[THEN conjunct2, THEN conjunct2, THEN conjunct2, rule_format, OF conjI[OF nm rsm]]
  have 1: "addCalls (snd (main ?e)) = [(memberA, memberB)]" by (rule step[THEN conjunct1])
  have 2: "main ?e = (Inr (), ?t3 @ [AddMemberCall memberA memberB, Http (addRequest memberA memberB),
             FileWritten (dropInFile ?e) (directive ?R ''existing'')])"
    by (rule step[THEN conjunct2, THEN conjunct2, THEN conjunct2, THEN conjunct1, rule_format, OF ok])
  have "Name memberB \<in> Name ` set (map toMember [recordedA, recordedB])"
    by (simp add: toMember_def memberB_def recordedB_def)
  from joined[THEN conjunct2, THEN conjunct2, THEN conjunct1, rule_format, OF this]
  have 3: "addCalls (snd (main (scenario ''B'' ?R [recordedA, recordedB] clusterUp))) = []" .
  from me nm 1 2 3 show ?thesis by (simp add: scenario_fields)
qed

subsection \<open>C5: an unreachable cluster degrades to a new cluster\<close>

text \<open>
  C5, as the code has it. Let the run get past its start-up steps with the expected
  roster \<open>R\<close>, and let the drop-in directory and file be creatable. If
  \<^verbatim>\<open>FindHealthyMember\<close> returns its error, or it returns a member and the listing
  request to that member fails in the transport, then the run calls neither
  \<^verbatim>\<open>RemoveMember\<close> nor \<^verbatim>\<open>AddMember\<close>, sends no request that changes the cluster,
  writes the directive with mode \<^verbatim>\<open>new\<close> and the \<^verbatim>\<open>name=peerURL\<close> pairs of all of
  \<open>R\<close>, and ends with \<^verbatim>\<open>os.Exit(0)\<close>. A listing that is answered, whatever its
  status and whether or not its body can be decoded, is not a failure of
  \<^verbatim>\<open>ListMembers\<close>: the members that the decoder yields (none, when it yields no
  \<^verbatim>\<open>members\<close> entry) are the actual roster, the run goes on to reconcile, and it
  neither ends with \<^verbatim>\<open>os.Exit(0)\<close> nor writes a directive with mode \<^verbatim>\<open>new\<close>.
\<close>

theorem unreachable_cluster_degrades_to_new:
  assumes "GetMetadata e = Inr insId" "GetExpectedMembers e insId = Inr R" "NewClient e = None"
    and "mkdirAll e (pathDir e (dropInFile e)) = None" "createFile e (dropInFile e) = None"
  shows "(FindHealthyMember e R [] = (Inl err, t1)
          \<or> (FindHealthyMember e R [] = (Inr hm, t0)
              \<and> transport e t0 (listRequest hm) = TransportError err
              \<and> t1 = t0 @ [Http (listRequest hm)]) \<longrightarrow>
          main e = (Inl (Exit 0), t1 @ [FileWritten (dropInFile e) (directive R ''new'')])
          \<and> exitStatus (fst (main e)) = 0
          \<and> removeCalls (snd (main e)) = [] \<and> addCalls (snd (main e)) = []
          \<and> mutations (snd (main e)) = []
          \<and> filesWritten (snd (main e)) = [(dropInFile e, directive R ''new'')])
     \<and> (FindHealthyMember e R [] = (Inr hm, t0)
          \<and> transport e t0 (listRequest hm) = Response status body \<longrightarrow>
          ListMembers e hm t0
            = (Inr (map toMember (indexMembers (decodeMembers e body) ''members'')),
               t0 @ [Http (listRequest hm)])
          \<and> fst (main e) \<noteq> Inl (Exit 0)
          \<and> (filesWritten (snd (main e)) = []
              \<or> filesWritten (snd (main e)) = [(dropInFile e, directive R ''existing'')]))"
proof (intro conjI impI)
  assume h: "FindHealthyMember e R [] = (Inl err, t1)
          \<or> (FindHealthyMember e R [] = (Inr hm, t0)
              \<and> transport e t0 (listRequest hm) = TransportError err
              \<and> t1 = t0 @ [Http (listRequest hm)])"
  then have d: "FindHealthyMember e R [] = (Inl err, t1)
         \<or> (FindHealthyMember e R [] = (Inr hm, t0) \<and> ListMembers e hm t0 = (Inl err, t1))"
    by (auto simp: ListMembers_eq)
  have m: "main e = (Inl (Exit 0), t1 @ [FileWritten (dropInFile e) (directive R ''new'')])"
    using main_degrade[OF assms(1-3) d] writeNewAndExit_ok[OF assms(4,5)] by simp
  have q: "removeCalls t1 = [] \<and> addCalls t1 = [] \<and> mutations t1 = [] \<and> filesWritten t1 = []"
    using d
  proof
    assume fhm: "FindHealthyMember e R [] = (Inl err, t1)"
    from FindHealthyMember_quiet[OF fhm] FindHealthyMember_mutations[OF fhm] show ?thesis by simp
  next
    assume "FindHealthyMember e R [] = (Inr hm, t0) \<and> ListMembers e hm t0 = (Inl err, t1)"
    then have "FindHealthyMember e R [] = (Inr hm, t0)" "ListMembers e hm t0 = (Inl err, t1)" by simp_all
    from quiet_start[OF this] show ?thesis by simp
  qed
  from m show "main e = (Inl (Exit 0), t1 @ [FileWritten (dropInFile e) (directive R ''new'')])" .
  from m show "exitStatus (fst (main e)) = 0" by simp
  from m q show "removeCalls (snd (main e)) = []" "addCalls (snd (main e)) = []"
    "mutations (snd (main e)) = []"
    "filesWritten (snd (main e)) = [(dropInFile e, directive R ''new'')]"
    by simp_all
next
  assume h: "FindHealthyMember e R [] = (Inr hm, t0)
          \<and> transport e t0 (listRequest hm) = Response status body"
  then have fhm: "FindHealthyMember e R [] = (Inr hm, t0)"
    and lm: "ListMembers e hm t0
            = (Inr (map toMember (indexMembers (decodeMembers e body) ''members'')),
               t0 @ [Http (listRequest hm)])"
    by (simp_all add: ListMembers_eq)
  from lm show "ListMembers e hm t0
            = (Inr (map toMember (indexMembers (decodeMembers e body) ''members'')),
               t0 @ [Http (listRequest hm)])" .
  from main_files[OF assms(1-3) fhm lm]
  show "fst (main e) \<noteq> Inl (Exit 0)"
    "filesWritten (snd (main e)) = []
              \<or> filesWritten (snd (main e)) = [(dropInFile e, directive R ''existing'')]"
    by auto
qed

text \<open>
  A run with every member unreachable, a run whose listing is lost in the transport
  (both write the directive for a new cluster and exit with status 0), and a run whose
  listing is answered (which does not exit with status 0).
\<close>

theorem unreachable_cluster_degrades_to_new_witness:
  "main (scenario ''B'' [memberA, memberB] [recordedA] clusterDown)
     = (Inl (Exit 0),
        [probeEvent memberA, probeEvent memberB,
         FileWritten ''/run/etcdmate.conf'' (directive [memberA, memberB] ''new'')])
   \<and> exitStatus (fst (main (scenario ''B'' [memberA, memberB] [recordedA] clusterDown))) = 0
   \<and> mutations (snd (main (scenario ''B'' [memberA, memberB] [recordedA] clusterDown))) = []
   \<and> transport (scenario ''B'' [memberA, memberB] [recordedA] clusterListingLost) [probeEvent memberA]
        (listRequest memberA) = TransportError ''timeout''
   \<and> main (scenario ''B'' [memberA, memberB] [recordedA] clusterListingLost)
     = (Inl (Exit 0),
        [probeEvent memberA, Http (listRequest memberA),
         FileWritten ''/run/etcdmate.conf'' (directive [memberA, memberB] ''new'')])
   \<and> transport (scenario ''B'' [memberA, memberB] [recordedA] clusterUp) [probeEvent memberA]
        (listRequest memberA) = Response 200 ''members''
   \<and> fst (main (scenario ''B'' [memberA, memberB] [recordedA] clusterUp)) \<noteq> Inl (Exit 0)
   \<and> directive [memberA, memberB] ''new''
       = ''[Service]\<newline>Environment=ETCD_INITIAL_CLUSTER=A=http://a:2380,B=http://b:2380\<newline>Environment=ETCD_INITIAL_CLUSTER_STATE=new\<newline>''"
proof -
  let ?R = "[memberA, memberB]"
  let ?e = "scenario ''B'' ?R [recordedA] clusterDown"
  let ?f = "scenario ''B'' ?R [recordedA] clusterListingLost"
  let ?g = "scenario ''B'' ?R [recordedA] clusterUp"
  have down: "FindHealthyMember ?e ?R [] = (Inl ''No healthy member found'', [probeEvent memberA, probeEvent memberB])
         \<or> (FindHealthyMember ?e ?R [] = (Inr memberA, [])
             \<and> transport ?e [] (listRequest memberA) = TransportError ''No healthy member found''
             \<and> [probeEvent memberA, probeEvent memberB] = [] @ [Http (listRequest memberA)])"
    by (simp add: scenario_fields clusterDown_def probeEvent_def probeRequest_def)
  note run1 = unreachable_cluster_degrades_to_new
    [of ?e "''B''" ?R "''No healthy member found''" "[probeEvent memberA, probeEvent memberB]"
        memberA "[]" 0 "''''",
     OF scenario_fields(1) scenario_fields(2) scenario_fields(3) scenario_fields(4) scenario_fields(5),
     THEN conjunct1, THEN mp, OF down]
  have lost: "transport ?f [probeEvent memberA] (listRequest memberA) = TransportError ''timeout''"
    by (simp add: scenario_fields clusterListingLost_def listRequest_def memberA_def)
  have lost': "FindHealthyMember ?f ?R [] = (Inl ''timeout'', [probeEvent memberA, Http (listRequest memberA)])
         \<or> (FindHealthyMember ?f ?R [] = (Inr memberA, [probeEvent memberA])
             \<and> transport ?f [probeEvent memberA] (listRequest memberA) = TransportError ''timeout''
             \<and> [probeEvent memberA, Http (listRequest memberA)] = [probeEvent memberA] @ [Http (listRequest memberA)])"
    using listing_nets_probe_A[OF listing_nets(1), of "''B''" ?R "[recordedA]" "[memberB]"] lost by simp
  note run2 = unreachable_cluster_degrades_to_new
    [of ?f "''B''" ?R "''timeout''" "[probeEvent memberA, Http (listRequest memberA)]"
        memberA "[probeEvent memberA]" 0 "''''",
     OF scenario_fields(1) scenario_fields(2) scenario_fields(3) scenario_fields(4) scenario_fields(5),
     THEN conjunct1, THEN mp, OF lost']
  have answered: "transport ?g [probeEvent memberA] (listRequest memberA) = Response 200 ''members''"
    by (simp add: scenario_fields clusterUp_def listRequest_def memberA_def)
  note run3 = unreachable_cluster_degrades_to_new
    [of ?g "''B''" ?R "''''" "[]" memberA "[probeEvent memberA]" 200 "''members''",
     OF scenario_fields(1) scenario_fields(2) scenario_fields(3) scenario_fields(4) scenario_fields(5),
     THEN conjunct2, THEN mp, OF conjI[OF scenario_probe_A[OF nets(1)] answered]]
  have d: "directive ?R ''new''
       = ''[Service]\<newline>Environment=ETCD_INITIAL_CLUSTER=A=http://a:2380,B=http://b:2380\<newline>Environment=ETCD_INITIAL_CLUSTER_STATE=new\<newline>''"
    by (simp add: directive_def peerList_def memberA_def memberB_def)
  from run1[THEN conjunct1] run1[THEN conjunct2, THEN conjunct1]
    run1[THEN conjunct2, THEN conjunct2, THEN conjunct2, THEN conjunct2, THEN conjunct1]
    lost run2[THEN conjunct1] answered run3[THEN conjunct2, THEN conjunct1] d
  show ?thesis by (simp add: scenario_fields)
qed

text \<open>
  C5 as stated fails where the listing fails without a transport error: \<open>A\<close> is
  healthy, its listing is answered with status 500 and a body that holds no members,
  and the run, instead of degrading, adds \<open>B\<close> and writes the directive with mode
  \<^verbatim>\<open>existing\<close>.
\<close>

theorem broken_listing_does_not_degrade:
  "FindHealthyMember (scenario ''B'' [memberA, memberB] [recordedA, recordedB] clusterListingBroken)
       [memberA, memberB] [] = (Inr memberA, [probeEvent memberA])
   \<and> transport (scenario ''B'' [memberA, memberB] [recordedA, recordedB] clusterListingBroken)
       [probeEvent memberA] (listRequest memberA) = Response 500 ''Internal Server Error''
   \<and> decodeMembers (scenario ''B'' [memberA, memberB] [recordedA, recordedB] clusterListingBroken)
       ''Internal Server Error'' ''members'' = None
   \<and> main (scenario ''B'' [memberA, memberB] [recordedA, recordedB] clusterListingBroken)
     = (Inr (),
        [probeEvent memberA, Http (listRequest memberA),
         AddMemberCall memberA memberB, Http (addRequest memberA memberB),
         FileWritten ''/run/etcdmate.conf'' (directive [memberA, memberB] ''existing'')])"
proof -
  let ?R = "[memberA, memberB]"
  let ?e = "scenario ''B'' ?R [recordedA, recordedB] clusterListingBroken"
  have fhm: "FindHealthyMember ?e ?R [] = (Inr memberA, [probeEvent memberA])"
    by (rule listing_nets_probe_A[OF listing_nets(2)])
  have tr: "transport ?e [probeEvent memberA] (listRequest memberA) = Response 500 ''Internal Server Error''"
    by (simp add: scenario_fields clusterListingBroken_def listRequest_def memberA_def)
  have dec: "decodeMembers ?e ''Internal Server Error'' ''members'' = None"
    by (simp add: scenario_def)
  have lm: "ListMembers ?e memberA [probeEvent memberA] = (Inr [], [probeEvent memberA, Http (listRequest memberA)])"
    using tr dec by (simp add: ListMembers_eq indexMembers_def)
  have "main ?e = (Inr (),
        [probeEvent memberA, Http (listRequest memberA),
         AddMemberCall memberA memberB, Http (addRequest memberA memberB),
         FileWritten ''/run/etcdmate.conf'' (directive ?R ''existing'')])"
    unfolding main_reconcile[OF scenario_fields(1) scenario_fields(2) scenario_fields(3) fhm lm]
    by (simp add: run_simps clusterListingBroken_def)
  with fhm tr dec show ?thesis by simp
qed

subsection \<open>C6: the directive reflects the expected roster\<close>

text \<open>
  C6. Whatever the cluster answers: a run that returns from \<^verbatim>\<open>main\<close> (the outcome
  \<^verbatim>\<open>existing\<close>) has written exactly one file, the directive of the expected roster
  \<open>R\<close> with mode \<^verbatim>\<open>existing\<close>; a run that ends with \<^verbatim>\<open>os.Exit(0)\<close> (the outcome
  \<^verbatim>\<open>new\<close>) has written exactly the directive of \<open>R\<close> with mode \<^verbatim>\<open>new\<close>; a run
  that ends in any other way has written nothing. The directive carries the
  \<^verbatim>\<open>name=peerURL\<close> pair of every member of \<open>R\<close>, in the order of \<open>R\<close>, joined by
  commas: it depends on \<open>R\<close> and the mode only, not on the actual roster nor on what
  was removed or added.
\<close>

theorem directive_lists_the_expected_roster:
  assumes "GetMetadata e = Inr insId" "GetExpectedMembers e insId = Inr R"
  shows "(fst (main e) = Inr () \<longrightarrow>
            filesWritten (snd (main e)) = [(dropInFile e, directive R ''existing'')])
     \<and> (fst (main e) = Inl (Exit 0) \<longrightarrow>
            filesWritten (snd (main e)) = [(dropInFile e, directive R ''new'')])
     \<and> (fst (main e) \<noteq> Inr () \<and> fst (main e) \<noteq> Inl (Exit 0) \<longrightarrow> filesWritten (snd (main e)) = [])
     \<and> directive R mode =
          ''[Service]\<newline>Environment=ETCD_INITIAL_CLUSTER=''
          @ Join (map (\<lambda>m. Name m @ ''='' @ PeerURL m) R) '',''
          @ ''\<newline>Environment=ETCD_INITIAL_CLUSTER_STATE='' @ mode @ ''\<newline>''"
proof -
  have d: "directive R mode =
          ''[Service]\<newline>Environment=ETCD_INITIAL_CLUSTER=''
          @ Join (map (\<lambda>m. Name m @ ''='' @ PeerURL m) R) '',''
          @ ''\<newline>Environment=ETCD_INITIAL_CLUSTER_STATE='' @ mode @ ''\<newline>''"
    unfolding directive_def peerList_def ..
  from main_files_all[OF assms] have
    "(fst (main e) = Inr () \<longrightarrow>
            filesWritten (snd (main e)) = [(dropInFile e, directive R ''existing'')])
     \<and> (fst (main e) = Inl (Exit 0) \<longrightarrow>
            filesWritten (snd (main e)) = [(dropInFile e, directive R ''new'')])
     \<and> (fst (main e) \<noteq> Inr () \<and> fst (main e) \<noteq> Inl (Exit 0) \<longrightarrow> filesWritten (snd (main e)) = [])"
    by (elim disjE exE conjE) simp_all
  with d show ?thesis by (intro conjI) blast+
qed

text \<open>
  The same inventory against a cluster that records \<open>A\<close> and \<open>C\<close> (so that \<open>C\<close> is
  removed and \<open>B\<close> added) and against an unreachable cluster: the peer list is the
  same, the mode differs.
\<close>

theorem directive_lists_the_expected_roster_witness:
  "fst (main (scenario ''B'' [memberA, memberB] [recordedA, recordedC] clusterUp)) = Inr ()
   \<and> filesWritten (snd (main (scenario ''B'' [memberA, memberB] [recordedA, recordedC] clusterUp)))
       = [(''/run/etcdmate.conf'',
           ''[Service]\<newline>Environment=ETCD_INITIAL_CLUSTER=A=http://a:2380,B=http://b:2380\<newline>Environment=ETCD_INITIAL_CLUSTER_STATE=existing\<newline>'')]
   \<and> fst (main (scenario ''B'' [memberA, memberB] [recordedA, recordedC] clusterDown)) = Inl (Exit 0)
   \<and> filesWritten (snd (main (scenario ''B'' [memberA, memberB] [recordedA, recordedC] clusterDown)))
       = [(''/run/etcdmate.conf'',
           ''[Service]\<newline>Environment=ETCD_INITIAL_CLUSTER=A=http://a:2380,B=http://b:2380\<newline>Environment=ETCD_INITIAL_CLUSTER_STATE=new\<newline>'')]"
proof -
  let ?R = "[memberA, memberB]"
  let ?e = "scenario ''B'' ?R [recordedA, recordedC] clusterUp"
  let ?f = "scenario ''B'' ?R [recordedA, recordedC] clusterDown"
  note up = directive_lists_the_expected_roster
    [of ?e "''B''" ?R "''existing''", OF scenario_fields(1) scenario_fields(2)]
  note down = directive_lists_the_expected_roster
    [of ?f "''B''" ?R "''new''", OF scenario_fields(1) scenario_fields(2)]
  have 1: "fst (main ?e) = Inr ()"
    unfolding scenario_run[OF nets(1)] by (simp add: run_simps)
  have 2: "fst (main ?f) = Inl (Exit 0)"
    by (simp add: main_def writeNewAndExit_def WriteDropIn_eq scenario_fields clusterDown_def)
  have d: "Join (map (\<lambda>m. Name m @ ''='' @ PeerURL m) ?R) '','' = ''A=http://a:2380,B=http://b:2380''"
    by (simp add: memberA_def memberB_def)
  from up[THEN conjunct1, rule_format, OF 1]
    up[THEN conjunct2, THEN conjunct2, THEN conjunct2]
    down[THEN conjunct2, THEN conjunct1, rule_format, OF 2]
    down[THEN conjunct2, THEN conjunct2, THEN conjunct2] 1 2 d
  show ?thesis by (simp add: scenario_fields)
qed

subsection \<open>C7: the first healthy candidate wins\<close>

text \<open>
  C7. \<^verbatim>\<open>FindHealthyMember\<close> probes the candidates in the given order. A candidate
  whose probe fails in the transport, or whose payload does not map \<^verbatim>\<open>"health"\<close> to
  \<^verbatim>\<open>"true"\<close>, is not healthy and the search goes on with the next candidate. The
  result is the first healthy candidate, and the requests sent are the probes of the
  candidates up to and including it, none after it; when no candidate is healthy, every
  candidate has been probed once and the result is the error "No healthy member
  found". The function has no other result: an unreachable member is never an error of
  its own.
\<close>

theorem FindHealthyMember_first_healthy_wins:
  "(transport e t (probeRequest m) = TransportError err \<longrightarrow>
      \<not> healthyAt e t m
      \<and> FindHealthyMember e (m # ms) t = FindHealthyMember e ms (t @ [probeEvent m]))
   \<and> (transport e t (probeRequest m) = Response status body
        \<and> decodeHealth e body ''health'' \<noteq> Some ''true'' \<longrightarrow>
      \<not> healthyAt e t m
      \<and> FindHealthyMember e (m # ms) t = FindHealthyMember e ms (t @ [probeEvent m]))
   \<and> (case FindHealthyMember e cs t of
        (Inr hm, t') \<Rightarrow>
          (\<exists>i < length cs. hm = cs ! i
             \<and> healthyAt e (t @ map probeEvent (take i cs)) (cs ! i)
             \<and> (\<forall>j < i. \<not> healthyAt e (t @ map probeEvent (take j cs)) (cs ! j))
             \<and> t' = t @ map probeEvent (take (Suc i) cs))
      | (Inl failure, t') \<Rightarrow>
          failure = ''No healthy member found''
          \<and> (\<forall>j < length cs. \<not> healthyAt e (t @ map probeEvent (take j cs)) (cs ! j))
          \<and> t' = t @ map probeEvent cs)"
proof (intro conjI impI)
  assume "transport e t (probeRequest m) = TransportError err"
  then show "\<not> healthyAt e t m" by (simp add: healthyAt_def)
  then show "FindHealthyMember e (m # ms) t = FindHealthyMember e ms (t @ [probeEvent m])"
    by (simp add: FindHealthyMember_step del: FindHealthyMember.simps)
next
  assume "transport e t (probeRequest m) = Response status body
        \<and> decodeHealth e body ''health'' \<noteq> Some ''true''"
  then show "\<not> healthyAt e t m" by (simp add: healthyAt_def)
  then show "FindHealthyMember e (m # ms) t = FindHealthyMember e ms (t @ [probeEvent m])"
    by (simp add: FindHealthyMember_step del: FindHealthyMember.simps)
next
  obtain r t' where run: "FindHealthyMember e cs t = (r, t')" by (cases "FindHealthyMember e cs t")
  show "case FindHealthyMember e cs t of
        (Inr hm, t') \<Rightarrow>
          (\<exists>i < length cs. hm = cs ! i
             \<and> healthyAt e (t @ map probeEvent (take i cs)) (cs ! i)
             \<and> (\<forall>j < i. \<not> healthyAt e (t @ map probeEvent (take j cs)) (cs ! j))
             \<and> t' = t @ map probeEvent (take (Suc i) cs))
      | (Inl failure, t') \<Rightarrow>
          failure = ''No healthy member found''
          \<and> (\<forall>j < length cs. \<not> healthyAt e (t @ map probeEvent (take j cs)) (cs ! j))
          \<and> t' = t @ map probeEvent cs"
  proof (cases r)
    case (Inl failure)
    with run FindHealthyMember_none[of e cs t failure t'] show ?thesis by simp
  next
    case (Inr hm)
    with run FindHealthyMember_found[of e cs t hm t'] show ?thesis by auto
  qed
qed

text \<open>
  On \<open>clusterUp\<close> the probe of \<open>B\<close> fails in the transport, \<open>A\<close> is healthy and
  the third candidate is not probed; on \<open>clusterDown\<close> nobody is healthy.
\<close>

theorem FindHealthyMember_first_healthy_wins_witness:
  "FindHealthyMember (scenario ''B'' [memberB, memberA] [recordedA] clusterUp) [memberB, memberA, memberB] []
     = (Inr memberA, [probeEvent memberB, probeEvent memberA])
   \<and> transport (scenario ''B'' [memberB, memberA] [recordedA] clusterUp) [] (probeRequest memberB)
       = TransportError ''connection refused''
   \<and> \<not> healthyAt (scenario ''B'' [memberB, memberA] [recordedA] clusterUp) [] memberB
   \<and> healthyAt (scenario ''B'' [memberB, memberA] [recordedA] clusterUp) [probeEvent memberB] memberA
   \<and> FindHealthyMember (scenario ''B'' [memberB, memberA] [recordedA] clusterDown) [memberB, memberA] []
     = (Inl ''No healthy member found'', [probeEvent memberB, probeEvent memberA])"
  using FindHealthyMember_first_healthy_wins
    [of "scenario ''B'' [memberB, memberA] [recordedA] clusterUp" "[]" memberB "''connection refused''"
        "[memberA, memberB]" 0 "''''" "[memberB, memberA, memberB]"]
    FindHealthyMember_first_healthy_wins
    [of "scenario ''B'' [memberB, memberA] [recordedA] clusterDown" "[]" memberB "''connection refused''"
        "[memberA]" 0 "''''" "[memberB, memberA]"]
  by (simp add: scenario_defs healthyAt_def probeRequest_def probeEvent_def indexString_def)

subsection \<open>C8: what the client makes of the response status\<close>

text \<open>
  C8, as the code has it. \<^verbatim>\<open>AddMember\<close> and \<^verbatim>\<open>RemoveMember\<close> never look at the
  status of the response: an addition reports success exactly when the transport
  delivers a response, whatever its status, and a removal exactly when the request
  could be built and the transport delivers a response. Only a transport failure (or a
  request that cannot be built) is reported to the caller as a failure.
\<close>

theorem mutation_succeeds_on_any_response:
  "(fst (AddMember e hm am t) = None \<longleftrightarrow>
      (\<exists>status body. transport e (t @ [AddMemberCall hm am]) (addRequest hm am) = Response status body))
   \<and> (fst (RemoveMember e hm rm t) = None \<longleftrightarrow>
      newRequestErr e (ClientURL hm @ ''/v2/members/'' @ ID rm) = None
      \<and> (\<exists>status body. transport e (t @ [RemoveMemberCall hm rm]) (removeRequest hm rm) = Response status body))"
  by (auto simp: AddMember_eq RemoveMember_eq split: response.splits option.splits)

text \<open>
  The theorem at work: both operations succeed on the accepting cluster, and the
  addition fails when the transport fails.
\<close>

theorem mutation_succeeds_on_any_response_witness:
  "fst (AddMember (scenario ''B'' [memberA, memberB] [recordedA] clusterUp) memberA memberB []) = None
   \<and> fst (RemoveMember (scenario ''B'' [memberA, memberB] [recordedA] clusterUp) memberA (toMember recordedC) []) = None
   \<and> fst (AddMember (scenario ''B'' [memberA, memberB] [recordedA] clusterDown) memberA memberB []) \<noteq> None"
  using mutation_succeeds_on_any_response
    [of "scenario ''B'' [memberA, memberB] [recordedA] clusterUp" memberA memberB "[]" "toMember recordedC"]
    mutation_succeeds_on_any_response
    [of "scenario ''B'' [memberA, memberB] [recordedA] clusterDown" memberA memberB "[]" "toMember recordedC"]
  by (simp add: scenario_defs addRequest_def removeRequest_def toMember_def)

text \<open>
  C8 as stated fails: the addition is answered with status 409 and the removal with
  status 500, both responses complete, and both operations report success.
\<close>

theorem non_2xx_is_reported_as_success:
  "transport (scenario ''B'' [memberA, memberB] [recordedA] clusterRejecting)
       [AddMemberCall memberA memberB] (addRequest memberA memberB) = Response 409 ''''
   \<and> fst (AddMember (scenario ''B'' [memberA, memberB] [recordedA] clusterRejecting) memberA memberB []) = None
   \<and> transport (scenario ''B'' [memberA, memberB] [recordedA] clusterRejecting)
       [RemoveMemberCall memberA (toMember recordedC)] (removeRequest memberA (toMember recordedC)) = Response 500 ''''
   \<and> fst (RemoveMember (scenario ''B'' [memberA, memberB] [recordedA] clusterRejecting) memberA (toMember recordedC) []) = None"
  by (simp add: scenario_defs AddMember_def RemoveMember_def addRequest_def removeRequest_def toMember_def)

subsection \<open>C9: the listing tolerates empty URL arrays\<close>

text \<open>
  C9. When the listing request is answered, \<^verbatim>\<open>ListMembers\<close> returns one member for
  each element of the decoded \<^verbatim>\<open>members\<close> array, in order, and never fails: the
  member has the element's id and name, the first entry of each URL array, and the
  empty string where the array is empty.
\<close>

theorem ListMembers_tolerates_empty_url_arrays:
  assumes "transport e t (listRequest hm) = Response status body"
    and "jms = indexMembers (decodeMembers e body) ''members''"
  shows "\<exists>ms. ListMembers e hm t = (Inr ms, t @ [Http (listRequest hm)])
           \<and> length ms = length jms
           \<and> (\<forall>i < length jms.
                ID (ms ! i) = jm_Id (jms ! i)
                \<and> Name (ms ! i) = jm_Name (jms ! i)
                \<and> ClientURL (ms ! i) =
                    (if jm_ClientURLs (jms ! i) = [] then '''' else jm_ClientURLs (jms ! i) ! 0)
                \<and> PeerURL (ms ! i) =
                    (if jm_PeerURLs (jms ! i) = [] then '''' else jm_PeerURLs (jms ! i) ! 0))"
proof -
  have "ListMembers e hm t = (Inr (map toMember jms), t @ [Http (listRequest hm)])"
    using assms by (simp add: ListMembers_eq)
  moreover have "firstOrEmpty us = (if us = [] then '''' else us ! 0)" for us
    by (cases us) (simp_all add: firstOrEmpty_def)
  ultimately show ?thesis by (simp add: toMember_def)
qed

text \<open>
  A listing with a fully recorded member, a member in the middle of joining (no URLs)
  and a member with two client URLs, of which the first is kept.
\<close>

theorem ListMembers_tolerates_empty_url_arrays_witness:
  "transport (scenario ''B'' [memberA, memberB] [recordedA, joiningD, movedA] clusterUp) []
       (listRequest memberA) = Response 200 ''members''
   \<and> ListMembers (scenario ''B'' [memberA, memberB] [recordedA, joiningD, movedA] clusterUp) memberA []
     = (Inr [\<lparr>ID = ''1'', Name = ''A'', ClientURL = ''http://a:2379'', PeerURL = ''http://a:2380''\<rparr>,
             \<lparr>ID = ''4'', Name = ''D'', ClientURL = '''', PeerURL = ''''\<rparr>,
             \<lparr>ID = ''9'', Name = ''A'', ClientURL = ''http://x:2379'', PeerURL = ''http://x:2380''\<rparr>],
        [Http (listRequest memberA)])"
proof -
  let ?e = "scenario ''B'' [memberA, memberB] [recordedA, joiningD, movedA] clusterUp"
  have resp: "transport ?e [] (listRequest memberA) = Response 200 ''members''"
    by (simp add: scenario_defs listRequest_def)
  have jms: "[recordedA, joiningD, movedA] = indexMembers (decodeMembers ?e ''members'') ''members''"
    by (simp add: scenario_def indexMembers_def)
  from ListMembers_tolerates_empty_url_arrays[OF resp jms]
  obtain ms where ms: "ListMembers ?e memberA [] = (Inr ms, [] @ [Http (listRequest memberA)])"
    "length ms = 3"
    and each: "\<forall>i < length [recordedA, joiningD, movedA].
                ID (ms ! i) = jm_Id ([recordedA, joiningD, movedA] ! i)
                \<and> Name (ms ! i) = jm_Name ([recordedA, joiningD, movedA] ! i)
                \<and> ClientURL (ms ! i) =
                    (if jm_ClientURLs ([recordedA, joiningD, movedA] ! i) = [] then ''''
                     else jm_ClientURLs ([recordedA, joiningD, movedA] ! i) ! 0)
                \<and> PeerURL (ms ! i) =
                    (if jm_PeerURLs ([recordedA, joiningD, movedA] ! i) = [] then ''''
                     else jm_PeerURLs ([recordedA, joiningD, movedA] ! i) ! 0)"
    by auto
  from ms(2) obtain a b c where abc: "ms = [a, b, c]"
    by (cases ms; simp; rename_tac x xs; case_tac xs; simp; rename_tac y ys; case_tac ys; simp)
  from each[rule_format, of 0] each[rule_format, of 1] each[rule_format, of 2]
  have "a = \<lparr>ID = ''1'', Name = ''A'', ClientURL = ''http://a:2379'', PeerURL = ''http://a:2380''\<rparr>"
    "b = \<lparr>ID = ''4'', Name = ''D'', ClientURL = '''', PeerURL = ''''\<rparr>"
    "c = \<lparr>ID = ''9'', Name = ''A'', ClientURL = ''http://x:2379'', PeerURL = ''http://x:2380''\<rparr>"
    unfolding abc by (simp_all add: scenario_defs)
  with ms(1) abc resp show ?thesis by simp
qed

subsection \<open>C10: reconciliation is by name only\<close>

text \<open>
  C10. Let the run find a healthy member \<open>hm\<close> and list the actual roster \<open>A\<close>, and
  let \<open>m\<close> be any member record whose name occurs both in the expected roster and in
  \<open>A\<close>, whatever its id and URLs are. Then the run makes no \<^verbatim>\<open>RemoveMember\<close> call
  and no \<^verbatim>\<open>AddMember\<close> call for \<open>m\<close>, and every request of the run that changes
  the cluster is the removal of a member of \<open>A\<close> whose name is not expected, or the
  addition of the local node's entry when the local name is not in \<open>A\<close>: there is no
  request that updates a member.
\<close>

theorem members_in_both_rosters_are_left_alone:
  assumes "GetMetadata e = Inr insId" "GetExpectedMembers e insId = Inr R" "NewClient e = None"
    and "FindHealthyMember e R [] = (Inr hm, t1)" "ListMembers e hm t1 = (Inr A, t2)"
    and "Name m \<in> Name ` set R" "Name m \<in> Name ` set A"
  shows "(h, m) \<notin> set (removeCalls (snd (main e)))
     \<and> (h, m) \<notin> set (addCalls (snd (main e)))
     \<and> (\<forall>r \<in> set (mutations (snd (main e))).
           (\<exists>rm \<in> set A. Name rm \<notin> Name ` set R \<and> r = removeRequest hm rm)
           \<or> (\<exists>me \<in> set R. Name me = insId \<and> insId \<notin> Name ` set A \<and> r = addRequest hm me))"
proof -
  note q2 = quiet_start[OF assms(4,5)]
  obtain r3 t3 where rsm: "RemoveStaleMembers e hm R A t2 = (r3, t3)"
    by (cases "RemoveStaleMembers e hm R A t2")
  note proj = main_projections[OF assms(1-5) rsm]
  have "prefix (removeCalls (snd (main e))) (map (Pair hm) (stale R A))"
    unfolding proj(1) by (rule pruned_prefix[OF rsm q2(1)])
  from set_mono_prefix[OF this] assms(6)
  have 1: "(h, m) \<notin> set (removeCalls (snd (main e)))" by (auto simp: stale_def)
  from proj(2) assms(7) have 2: "(h, m) \<notin> set (addCalls (snd (main e)))" by auto
  have m3: "set (mutations t3) \<subseteq> removeRequest hm ` set (stale R A)"
    using RemoveStaleMembers_mutations[OF rsm] q2 by simp
  have 3: "(\<exists>rm \<in> set A. Name rm \<notin> Name ` set R \<and> r = removeRequest hm rm)
           \<or> (\<exists>me \<in> set R. Name me = insId \<and> insId \<notin> Name ` set A \<and> r = addRequest hm me)"
    if r: "r \<in> set (mutations (snd (main e)))" for r
    using proj(3)
  proof (elim disjE exE conjE)
    assume "set (mutations (snd (main e))) \<subseteq> set (mutations t3)"
    with r m3 have "r \<in> removeRequest hm ` set (stale R A)" by blast
    then show ?thesis by (auto simp: stale_def)
  next
    fix me
    assume me: "find (\<lambda>m. Name m = insId) R = Some me" "Name me \<notin> Name ` set A"
      and sub: "set (mutations (snd (main e))) \<subseteq> insert (addRequest hm me) (set (mutations t3))"
    from r sub m3 have "r = addRequest hm me \<or> r \<in> removeRequest hm ` set (stale R A)" by blast
    then show ?thesis
    proof
      assume "r = addRequest hm me"
      with find_self_Some[OF me(1)] me(2) show ?thesis by auto
    next
      assume "r \<in> removeRequest hm ` set (stale R A)"
      then show ?thesis by (auto simp: stale_def)
    qed
  qed
  from 1 2 3 show ?thesis by blast
qed

text \<open>
  \<open>A\<close> is recorded by the cluster under another id and other URLs than the inventory
  has: neither the recorded member is removed nor the inventory's entry added, and the
  only mutations are the removal of \<open>C\<close> and the addition of \<open>B\<close>.
\<close>

theorem members_in_both_rosters_are_left_alone_witness:
  "Name (toMember movedA) \<in> Name ` set [memberA, memberB]
   \<and> toMember movedA \<noteq> memberA
   \<and> (memberA, toMember movedA)
       \<notin> set (removeCalls (snd (main (scenario ''B'' [memberA, memberB] [movedA, recordedC] clusterUp))))
   \<and> (memberA, memberA)
       \<notin> set (addCalls (snd (main (scenario ''B'' [memberA, memberB] [movedA, recordedC] clusterUp))))
   \<and> mutations (snd (main (scenario ''B'' [memberA, memberB] [movedA, recordedC] clusterUp)))
       = [removeRequest memberA (toMember recordedC), addRequest memberA memberB]"
proof -
  let ?R = "[memberA, memberB]"
  let ?e = "scenario ''B'' ?R [movedA, recordedC] clusterUp"
  let ?t2 = "[probeEvent memberA, Http (listRequest memberA)]"
  have inR: "Name (toMember movedA) \<in> Name ` set ?R" "Name memberA \<in> Name ` set ?R"
    by (simp_all add: toMember_def movedA_def memberA_def)
  have inA: "Name (toMember movedA) \<in> Name ` set (map toMember [movedA, recordedC])"
    "Name memberA \<in> Name ` set (map toMember [movedA, recordedC])"
    by (simp_all add: toMember_def movedA_def memberA_def)
  have ne: "toMember movedA \<noteq> memberA" by (simp add: toMember_def movedA_def memberA_def)
  note recorded = members_in_both_rosters_are_left_alone
    [of ?e "''B''" ?R memberA "[probeEvent memberA]" "map toMember [movedA, recordedC]" ?t2
        "toMember movedA" memberA,
     OF scenario_fields(1) scenario_fields(2) scenario_fields(3)
        scenario_probe_A[OF nets(1)] scenario_list_A[OF nets(1)] inR(1) inA(1)]
  note inventory = members_in_both_rosters_are_left_alone
    [of ?e "''B''" ?R memberA "[probeEvent memberA]" "map toMember [movedA, recordedC]" ?t2
        memberA memberA,
     OF scenario_fields(1) scenario_fields(2) scenario_fields(3)
        scenario_probe_A[OF nets(1)] scenario_list_A[OF nets(1)] inR(2) inA(2)]
  have tr: "mutations (snd (main ?e)) = [removeRequest memberA (toMember recordedC), addRequest memberA memberB]"
    unfolding scenario_run[OF nets(1)] by (simp add: run_simps)
  from recorded[THEN conjunct1] inventory[THEN conjunct2, THEN conjunct1] inR(1) ne tr
  show ?thesis by simp
qed

end
